theory Spec2Isabelle
  imports Main "HOL-Library.Word"
begin

unbundle bit_operations_syntax

section \<open>Bytes and typed arrays\<close>

text \<open>
  A \<^verbatim>\<open>Uint8Array\<close> is a list of 8-bit words. Reading past the end gives
  \<^verbatim>\<open>undefined\<close> (\<open>None\<close>); in a bitwise expression \<^verbatim>\<open>undefined\<close>
  coerces to 0. Writing past the end of a typed array is ignored, which is
  what \<open>xs[i := v]\<close> does.
\<close>

type_synonym byte = "8 word"
type_synonym bytes = "byte list"

definition at :: "bytes \<Rightarrow> nat \<Rightarrow> byte option" where
  "at xs i = (if i < length xs then Some (xs ! i) else None)"

definition bits :: "byte option \<Rightarrow> byte" where
  "bits v = (case v of None \<Rightarrow> 0 | Some b \<Rightarrow> b)"

text \<open>\<^verbatim>\<open>a.slice(from, to)\<close> and \<^verbatim>\<open>a.slice(from)\<close> for non-negative bounds.\<close>

definition slice :: "bytes \<Rightarrow> nat \<Rightarrow> nat \<Rightarrow> bytes" where
  "slice xs from to = take (to - from) (drop from xs)"

definition slice_from :: "bytes \<Rightarrow> nat \<Rightarrow> bytes" where
  "slice_from xs from = drop from xs"

definition concat_bytes :: "bytes \<Rightarrow> bytes \<Rightarrow> bytes" where
  "concat_bytes a b = a @ b"

text \<open>\<^verbatim>\<open>equal(one, two)\<close>: same length and the same byte at every index.\<close>

function equal_loop :: "bytes \<Rightarrow> bytes \<Rightarrow> nat \<Rightarrow> bool" where
  "equal_loop one two i =
     (if i < length one
      then (if at one i \<noteq> at two i then False else equal_loop one two (i + 1))
      else True)"
  by pat_completeness auto
termination
  by (relation "measure (\<lambda>(one, two, i). length one - i)") auto

declare equal_loop.simps [simp del]

definition equal :: "bytes \<Rightarrow> bytes \<Rightarrow> bool" where
  "equal one two = (if length one \<noteq> length two then False else equal_loop one two 0)"

section \<open>Checksum of encrypted frames\<close>

text \<open>
  \<^verbatim>\<open>compute_checksum_encrypted(data, length)\<close>: a bit-serial CRC with seed
  0xb5 and feedback 0x07 over the first \<open>length\<close> bytes of \<open>data\<close>, one more
  round of eight shifts without input, and a final XOR with 0x02. The running
  value stays below 256, so it is a byte.
\<close>

function crc_data_bits :: "byte \<Rightarrow> nat \<Rightarrow> byte \<Rightarrow> byte" where
  "crc_data_bits d i crc =
     (if i < 8
      then (let bit = crc AND 0x80;
                crc1 = (push_bit 1 crc) OR ((drop_bit (7 - i) d) AND 0x01);
                crc2 = (if bit \<noteq> 0 then crc1 XOR 0x07 else crc1)
            in crc_data_bits d (i + 1) crc2)
      else crc)"
  by pat_completeness auto
termination
  by (relation "measure (\<lambda>(d, i, crc). 8 - i)") auto

declare crc_data_bits.simps [simp del]

function crc_bytes :: "bytes \<Rightarrow> int \<Rightarrow> nat \<Rightarrow> byte \<Rightarrow> byte" where
  "crc_bytes data len cur crc =
     (if int cur < len
      then crc_bytes data len (cur + 1) (crc_data_bits (bits (at data cur)) 0 crc)
      else crc)"
  by pat_completeness auto
termination
  by (relation "measure (\<lambda>(data, len, cur, crc). nat (len - int cur))") auto

declare crc_bytes.simps [simp del]

function crc_flush :: "nat \<Rightarrow> byte \<Rightarrow> byte" where
  "crc_flush i crc =
     (if i < 8
      then (let bit = crc AND 0x80;
                crc1 = push_bit 1 crc;
                crc2 = (if bit \<noteq> 0 then crc1 XOR 0x07 else crc1)
            in crc_flush (i + 1) crc2)
      else crc)"
  by pat_completeness auto
termination
  by (relation "measure (\<lambda>(i, crc). 8 - i)") auto

declare crc_flush.simps [simp del]

definition compute_checksum_encrypted :: "bytes \<Rightarrow> int \<Rightarrow> byte" where
  "compute_checksum_encrypted data len = crc_flush 0 (crc_bytes data len 0 0xb5) XOR 0x02"

section \<open>The XOR transform\<close>

text \<open>
  JavaScript's \<^verbatim>\<open>%\<close> is the remainder of truncated division (the sign follows
  the dividend); the source's \<^verbatim>\<open>mod(n, m)\<close> repairs it.
\<close>

definition js_rem :: "int \<Rightarrow> int \<Rightarrow> int" where
  "js_rem n m = sgn n * (\<bar>n\<bar> mod \<bar>m\<bar>)"

definition mod_js :: "int \<Rightarrow> int \<Rightarrow> int" where
  "mod_js n m = js_rem (js_rem n m + m) m"

function decrypt_loop :: "nat \<Rightarrow> nat \<Rightarrow> byte \<Rightarrow> int \<Rightarrow> bytes \<Rightarrow> bytes" where
  "decrypt_loop i packet_length key1 key2 packet =
     (if i < packet_length
      then (let key2' = mod_js (key2 - 1) 64
            in decrypt_loop (i + 1) packet_length key1 key2'
                 (packet[i := bits (at packet i) XOR key1 XOR word_of_int key2']))
      else packet)"
  by pat_completeness auto
termination
  by (relation "measure (\<lambda>(i, packet_length, key1, key2, packet). packet_length - i)") auto

declare decrypt_loop.simps [simp del]

definition HEADER_LENGTH :: int where
  "HEADER_LENGTH = 5"

definition decrypt_key1 :: "byte \<Rightarrow> byte \<Rightarrow> byte option" where
  "decrypt_key1 packet_type key_byte =
     (if packet_type = 0xc4 then Some (key_byte XOR 0x19)
      else if packet_type = 0xca then Some (key_byte XOR 0x59)
      else if packet_type = 0xcc then Some (key_byte XOR 0xdf)
      else None)"

definition decrypt :: "bytes \<Rightarrow> bytes" where
  "decrypt packet =
     (if length packet < 7 then packet
      else case decrypt_key1 (packet ! 4) (packet ! 5) of
        None \<Rightarrow> packet
      | Some key1 \<Rightarrow>
          (let packet_length = unat (packet ! 1);
               key2 = int packet_length - HEADER_LENGTH - 2;
               packet1 = decrypt_loop 6 packet_length key1 key2 packet;
               packet2 = packet1[5 := 0]
           in packet2[length packet2 - 2 :=
                compute_checksum_encrypted (slice_from packet2 1) (int packet_length - 1)]))"

section \<open>Checksum of plain frames\<close>

text \<open>
  Modelled from the spec: \<^verbatim>\<open>crc.crc8\<close> belongs to the \<^verbatim>\<open>crc\<close> package, which is
  not part of the sources. The spec calls it a CRC-8 seeded with 0x02; it is
  modelled as the usual CRC-8 with polynomial 0x07, byte by byte, most
  significant bit first, started from \<open>previous\<close>.
\<close>

function crc8_bits :: "nat \<Rightarrow> byte \<Rightarrow> byte" where
  "crc8_bits i crc =
     (if i < 8
      then crc8_bits (i + 1)
             (if crc AND 0x80 \<noteq> 0 then (push_bit 1 crc) XOR 0x07 else push_bit 1 crc)
      else crc)"
  by pat_completeness auto
termination
  by (relation "measure (\<lambda>(i, crc). 8 - i)") auto
declare crc8_bits.simps [simp del]

fun crc8 :: "bytes \<Rightarrow> byte \<Rightarrow> byte" where
  "crc8 [] previous = previous"
| "crc8 (b # buf) previous = crc8 buf (crc8_bits 0 (previous XOR b))"

definition compute_checksum :: "bytes \<Rightarrow> bytes \<Rightarrow> byte" where
  "compute_checksum len bs = crc8 (concat_bytes len bs) 0x02 XOR 0x02"

section \<open>Device state\<close>

datatype level = Debug | Info | Warn | Error

text \<open>
  What the client does to the outside, in order: a line given to the logger (its
  level, the leading text of the call and the bytes it prints, if any) and the
  callbacks of the host.
\<close>

datatype event =
    Log level string bytes
  | ChangesCallback
  | SpaConfigurationKnownCallback

datatype flow = FLOW_GOOD | FLOW_LOW | FLOW_FAILED

datatype task = Reconnect string

text \<open>
  The fields of \<^verbatim>\<open>SpaClient\<close>. A JavaScript array is a map from indices to
  values (a missing index reads as \<^verbatim>\<open>undefined\<close>, a write at any index is
  kept); an optional field is an \<open>option\<close>; a \<^verbatim>\<open>Date\<close> is its time in
  milliseconds. \<open>socket\<close> holds what has been written to the current socket.
  \<^verbatim>\<open>lastIncompleteChunk\<close> and \<^verbatim>\<open>lastChunkTimestamp\<close> are only ever assigned
  together, and are kept as one optional pair \<open>pending\<close>. \<open>trace\<close> collects the
  events and \<open>timers\<close> the callbacks waiting in \<^verbatim>\<open>setTimeout\<close>, each with the
  time it is due.
\<close>

record spa =
  initialSetup :: bool
  socket :: "bytes list option"
  lightIsOn :: "int \<rightharpoonup> bool"
  lightMode :: "byte option"
  lightBrightness :: "byte option"
  lightR :: "byte option"
  lightG :: "byte option"
  lightB :: "byte option"
  lightCycleTime :: "byte option"
  lightStatus :: nat
  lightLastUpdated :: int
  pumpsCurrentSpeed :: "int \<rightharpoonup> int"
  pumpsSpeedRange :: "int \<rightharpoonup> int"
  pumpsOverrideSpeed :: "int \<rightharpoonup> int"
  currentTemp :: "int option"
  targetTempModeHigh :: "int option"
  targetTempModeLow :: "int option"
  targetTempOverride :: "int option"
  tempRangeIsHigh :: bool
  heatingMode :: "string option"
  isHeatingNow :: bool
  tempChangeMode :: bool
  receivedStateUpdate :: bool
  spaLastUpdated :: int
  flow :: flow
  accurateConfigReadFromSpa :: bool
  isCurrentlyConnectedToSpa :: bool
  faultCheckIntervalId :: "nat option"
  stateUpdateCheckIntervalId :: "nat option"
  isFilterMode :: bool
  lastStateBytes :: bytes
  lastColorStateBytes :: bytes
  lastFaultBytes :: bytes
  pending :: "(bytes \<times> int) option"
  reconnecting :: bool
  trace :: "event list"
  timers :: "(int \<times> task) list"

definition emit :: "event \<Rightarrow> spa \<Rightarrow> spa" where
  "emit e s = s\<lparr>trace := trace s @ [e]\<rparr>"

text \<open>
  A call that can throw either throws (\<open>Inl\<close>, with the state as the throw
  leaves it: what was assigned before stays assigned) or returns a value and the
  new state (\<open>Inr\<close>). The exception that the interpreter can raise is the
  \<^verbatim>\<open>TypeError\<close> of \<^verbatim>\<open>undefined.toString()\<close>; nothing on the way up to the
  socket's \<^verbatim>\<open>data\<close> handler catches it.
\<close>

datatype error = TypeError

type_synonym 'a result = "(error \<times> spa) + ('a \<times> spa)"

definition final :: "'a result \<Rightarrow> spa" where
  "final r = (case r of Inl (e, s) \<Rightarrow> s | Inr (v, s) \<Rightarrow> s)"

definition value_of :: "'a result \<Rightarrow> 'a option" where
  "value_of r = (case r of Inl (e, s) \<Rightarrow> None | Inr (v, s) \<Rightarrow> Some v)"

definition DAY_MS :: int where
  "DAY_MS = 1000 * 3600 * 24"

text \<open>
  The fields as the constructor leaves them, before it opens the socket
  (\<open>now\<close> is the time of construction; the two dates are set one day back).
\<close>

definition initial_fields :: "int \<Rightarrow> spa" where
  "initial_fields now =
     \<lparr> initialSetup = False,
       socket = None,
       lightIsOn = [0 \<mapsto> False, 1 \<mapsto> False],
       lightMode = Some 0,
       lightBrightness = Some 0,
       lightR = Some 0,
       lightG = Some 0,
       lightB = Some 0,
       lightCycleTime = Some 0,
       lightStatus = 0,
       lightLastUpdated = now - DAY_MS,
       pumpsCurrentSpeed = [0 \<mapsto> 0, 1 \<mapsto> 0, 2 \<mapsto> 0, 3 \<mapsto> 0, 4 \<mapsto> 0, 5 \<mapsto> 0],
       pumpsSpeedRange = [0 \<mapsto> 0, 1 \<mapsto> 2, 2 \<mapsto> 1, 3 \<mapsto> 0, 4 \<mapsto> 0, 5 \<mapsto> 0],
       pumpsOverrideSpeed = [0 \<mapsto> -1, 1 \<mapsto> -1, 2 \<mapsto> -1, 3 \<mapsto> -1, 4 \<mapsto> -1, 5 \<mapsto> -1],
       currentTemp = None,
       targetTempModeHigh = None,
       targetTempModeLow = None,
       targetTempOverride = None,
       tempRangeIsHigh = True,
       heatingMode = Some [],
       isHeatingNow = False,
       tempChangeMode = False,
       receivedStateUpdate = True,
       spaLastUpdated = now - DAY_MS,
       flow = FLOW_GOOD,
       accurateConfigReadFromSpa = False,
       isCurrentlyConnectedToSpa = False,
       faultCheckIntervalId = None,
       stateUpdateCheckIntervalId = None,
       isFilterMode = False,
       lastStateBytes = [],
       lastColorStateBytes = [],
       lastFaultBytes = [],
       pending = None,
       reconnecting = False,
       trace = [],
       timers = [] \<rparr>"

section \<open>Message interpreter\<close>

definition StateReply :: bytes where "StateReply = [0xff, 0xaf, 0xc4]"
definition LightStateReply :: bytes where "LightStateReply = [0xff, 0xaf, 0xca]"
definition PreferencesReply :: bytes where "PreferencesReply = [0xff, 0xaf, 0x26]"
definition GetFaultsReply :: bytes where "GetFaultsReply = [0x0a, 0xbf, 0x28]"
definition ControlTypesReply :: bytes where "ControlTypesReply = [0x0a, 0xbf, 0x1e]"
definition ConfigReply :: bytes where "ConfigReply = [0x0a, 0xbf, 0x94]"
definition KnownUnknownReply :: bytes where "KnownUnknownReply = [0xff, 0xaf, 0x32]"

definition ControlPanelReply :: "nat \<Rightarrow> bytes" where
  "ControlPanelReply id' =
     (if id' = 0 then [0x0a, 0xbf, 0x23]
      else if id' = 1 then [0x0a, 0xbf, 0x24]
      else if id' = 2 then [0x0a, 0xbf, 0x25]
      else [0x0a, 0xbf, 0x26])"

definition HEATINGMODES :: "byte \<Rightarrow> string option" where
  "HEATINGMODES i =
     (if i = 0 then Some ''Ready''
      else if i = 1 then Some ''Rest''
      else if i = 2 then Some ''Ready in Rest''
      else None)"

text \<open>
  The closing loop of \<^verbatim>\<open>readStateFromBytes\<close> and \<^verbatim>\<open>readLightStateFromBytes\<close>:
  true as soon as a watched index holds different bytes in the old and the new
  snapshot.
\<close>

function differs_loop :: "nat list \<Rightarrow> bytes \<Rightarrow> bytes \<Rightarrow> nat \<Rightarrow> bool" where
  "differs_loop watched oldBytes newBytes i =
     (if i < length oldBytes
      then (if i \<in> set watched \<and> at oldBytes i \<noteq> at newBytes i then True
            else differs_loop watched oldBytes newBytes (i + 1))
      else False)"
  by pat_completeness auto
termination
  by (relation "measure (\<lambda>(watched, oldBytes, newBytes, i). length oldBytes - i)") auto
declare differs_loop.simps [simp del]

definition byte_num :: "byte option \<Rightarrow> int option" where
  "byte_num v = map_option uint v"

definition readStateFromBytes :: "bytes \<Rightarrow> spa \<Rightarrow> bool \<times> spa" where
  "readStateFromBytes bs s =
     (let moreFlags = bits (at bs 10);
          rangeHigh = (moreFlags AND 4 \<noteq> 0);
          jet1 = (drop_bit 3 (bits (at bs 10))) AND 3;
          s1 = s\<lparr> receivedStateUpdate := True,
                  currentTemp := (if at bs 15 = Some 255 then None else byte_num (at bs 15)),
                  heatingMode := HEATINGMODES ((drop_bit 4 (bits (at bs 18))) AND 0x03),
                  tempRangeIsHigh := rangeHigh,
                  isHeatingNow := ((drop_bit 6 (bits (at bs 26))) AND 1 = 1),
                  isFilterMode := (drop_bit 7 (bits (at bs 26)) = 1) \<rparr>;
          s2 = s1\<lparr> pumpsCurrentSpeed :=
                    (pumpsCurrentSpeed s1)(1 \<mapsto> (if jet1 = 1 then 0 else if jet1 = 0 then 1 else 2)) \<rparr>;
          s3 = s2\<lparr> pumpsCurrentSpeed :=
                    (pumpsCurrentSpeed s2)(2 \<mapsto> uint (drop_bit 2 ((bits (at bs 8)) AND 0x0c))),
                  tempChangeMode := ((drop_bit 5 (bits (at bs 10))) AND 1 = 1) \<rparr>;
          s4 = (if tempRangeIsHigh s3
                then s3\<lparr> targetTempModeHigh := byte_num (at bs 21) \<rparr>
                else s3\<lparr> targetTempModeLow := byte_num (at bs 21) \<rparr>);
          oldBytes = lastStateBytes s4;
          s5 = s4\<lparr> lastStateBytes := bs \<rparr>
      in if length oldBytes \<noteq> length (lastStateBytes s5) then (True, s5)
         else (differs_loop [8, 10, 15, 21] oldBytes (lastStateBytes s5) 0, s5))"

definition LIGHTOFF :: nat where "LIGHTOFF = 0"

definition light_status :: "bytes \<Rightarrow> nat \<Rightarrow> nat" where
  "light_status bs old =
     (if at bs 13 = Some 0x40 then LIGHTOFF
      else if at bs 13 = Some 0xc0 \<and> at bs 24 = Some 0x42 then 1
      else if at bs 13 = Some 0xc0 \<and> at bs 24 = Some 0x44 then 2
      else if at bs 13 = Some 0xbf then 3
      else if at bs 13 = Some 0x42 then 4
      else if at bs 13 = Some 0x47 then 5
      else if at bs 13 = Some 0x46 then 6
      else if at bs 13 = Some 0x48 then 7
      else if at bs 13 = Some 0x43 then 8
      else if at bs 13 = Some 0x49 then 9
      else if at bs 13 = Some 0x41 then 10
      else old)"

definition readLightStateFromBytes :: "bytes \<Rightarrow> spa \<Rightarrow> bool \<times> spa" where
  "readLightStateFromBytes bs s =
     (let s1 = s\<lparr> lightStatus := light_status bs (lightStatus s) \<rparr>;
          s2 = s1\<lparr> lightMode := at bs 13,
                   lightBrightness := at bs 6,
                   lightR := at bs 22,
                   lightG := at bs 18,
                   lightB := at bs 10,
                   lightCycleTime := at bs 24 \<rparr>;
          s3 = s2\<lparr> lightIsOn := (lightIsOn s2)(0 \<mapsto> \<not> (lightStatus s2 = LIGHTOFF)) \<rparr>;
          oldBytes = lastColorStateBytes s3;
          s4 = s3\<lparr> lastColorStateBytes := bs \<rparr>
      in if length oldBytes \<noteq> length (lastColorStateBytes s4) then (True, s4)
         else (differs_loop [13, 24] oldBytes (lastColorStateBytes s4) 0, s4))"

definition interpretControlTypesReply :: "spa \<Rightarrow> bool \<times> spa" where
  "interpretControlTypesReply s =
     (if accurateConfigReadFromSpa s then (False, s)
      else (let s1 = emit (Log Info ''Discovered 2 pumps with speeds'' []) s;
                s2 = s1\<lparr> lightIsOn := (lightIsOn s1)(0 \<mapsto> True) \<rparr>;
                s3 = emit (Log Info ''Discovered 1 light'' []) s2;
                s4 = s3\<lparr> accurateConfigReadFromSpa := True \<rparr>
            in (True, emit SpaConfigurationKnownCallback s4)))"

text \<open>
  \<^verbatim>\<open>timeToString(hour, minute)\<close> calls \<^verbatim>\<open>.toString()\<close> on both arguments, which
  throws a \<^verbatim>\<open>TypeError\<close> on \<^verbatim>\<open>undefined\<close>. Only whether it throws is modelled,
  not the text it builds.
\<close>

definition timeToString_throws :: "byte option \<Rightarrow> byte option \<Rightarrow> bool" where
  "timeToString_throws hour minute = (hour = None \<or> minute = None)"

text \<open>
  \<^verbatim>\<open>interpretControlPanelReply(id, contents)\<close>. For \<open>id = 1\<close> the four times are
  formatted before the two lines about the filters are logged; the hour of the
  second filter is \<^verbatim>\<open>contents[4] & 0x7f\<close>, a number even if the byte is missing.
\<close>

definition interpretControlPanelReply :: "nat \<Rightarrow> bytes \<Rightarrow> spa \<Rightarrow> bool result" where
  "interpretControlPanelReply id' contents s =
     (let s1 = emit (Log Info ''Control Panel reply'' contents) s
      in if id' = 1 then
           (if timeToString_throws (at contents 0) (at contents 1)
               \<or> timeToString_throws (at contents 2) (at contents 3)
               \<or> timeToString_throws (Some (bits (at contents 4) AND 0x7f)) (at contents 5)
               \<or> timeToString_throws (at contents 6) (at contents 7)
            then Inl (TypeError, s1)
            else Inr (False, emit (Log Info ''Second filter time'' [])
                               (emit (Log Info ''First filter time from'' []) s1)))
         else if id' = 2 then
           Inr (False, emit (Log Info ''Configuration Signature'' [])
                         (emit (Log Info ''Current Setup'' [])
                            (emit (Log Info ''SoftwareID (SSID)'' [])
                               (emit (Log Info ''System Model'' []) s1))))
         else Inr (False, s1))"

text \<open>
  \<^verbatim>\<open>readFaults(bytes)\<close>. Comparing \<^verbatim>\<open>undefined\<close> with a number is false, so a
  missing days-ago byte does not count as "more than zero days ago". When the
  bytes differ from the last snapshot the fault is logged, and the arguments of
  that call format the hour and the minute (bytes 4 and 5): if one is missing
  this throws, after the flow and the snapshot have been assigned.
\<close>

definition readFaults :: "bytes \<Rightarrow> spa \<Rightarrow> bool result" where
  "readFaults bs s =
     (let daysAgo = at bs 3;
          hour = at bs 4;
          minute = at bs 5;
          code = at bs 2;
          s1 = s\<lparr> flow := FLOW_GOOD \<rparr>;
          (message, stateChanged, s2) =
            (if (case daysAgo of None \<Rightarrow> False | Some d \<Rightarrow> d > 0)
             then (''No recent faults. Last fault'', False, s1)
             else if code = Some 16 \<or> code = Some 28
             then (''Recent, alerted fault found'', True, s1\<lparr> flow := FLOW_LOW \<rparr>)
             else if code = Some 17 \<or> code = Some 27 \<or> code = Some 30
             then (''Recent, alerted fault found'', True, s1\<lparr> flow := FLOW_FAILED \<rparr>)
             else (''Recent, but not alerted fault found:'', False, s1));
          oldBytes = lastFaultBytes s2;
          s3 = s2\<lparr> lastFaultBytes := bs \<rparr>
      in if \<not> equal oldBytes (lastFaultBytes s3)
         then (if timeToString_throws hour minute then Inl (TypeError, s3)
               else Inr (stateChanged, emit (Log Info message bs) s3))
         else Inr (stateChanged, s3))"

text \<open>
  The search of \<^verbatim>\<open>readAndActOnMessage\<close> through the four panel replies: the
  first \<open>id\<close> whose reply type matches, if any.
\<close>

function find_panel_reply :: "bytes \<Rightarrow> nat \<Rightarrow> nat option" where
  "find_panel_reply msgType id' =
     (if id' < 4
      then (if equal msgType (ControlPanelReply id') then Some id'
            else find_panel_reply msgType (id' + 1))
      else None)"
  by pat_completeness auto
termination
  by (relation "measure (\<lambda>(msgType, id'). 4 - id')") auto
declare find_panel_reply.simps [simp del]

text \<open>
  \<^verbatim>\<open>readAndActOnMessage(length, checksum, chunk)\<close> at time \<open>now\<close>. The type and
  the contents are cut out before the frame is decrypted. In the status and the
  light branch, an update that is a minute old or more counts as a change and
  restarts the minute. What \<^verbatim>\<open>readFaults\<close> or \<^verbatim>\<open>interpretControlPanelReply\<close>
  throws passes through.
\<close>

definition readAndActOnMessage :: "nat \<Rightarrow> byte \<Rightarrow> bytes \<Rightarrow> int \<Rightarrow> spa \<Rightarrow> bool result" where
  "readAndActOnMessage len checksum chunk0 now s =
     (let contents = slice chunk0 5 len;
          msgType = slice chunk0 2 5;
          chunk = decrypt chunk0
      in if equal msgType StateReply then
           (let (stateChanged, s1) = readStateFromBytes chunk s;
                s2 = (if \<not> initialSetup s1 then snd (interpretControlTypesReply s1) else s1)
            in if spaLastUpdated s2 \<le> now - 60000
               then Inr (True, emit (Log Debug ''DEBUG HEATING current|set:'' [])
                                 (emit (Log Debug [] chunk) (s2\<lparr> spaLastUpdated := now \<rparr>)))
               else Inr (stateChanged, s2))
         else if equal msgType LightStateReply then
           (let (stateChanged, s1) = readLightStateFromBytes chunk s
            in if lightLastUpdated s1 \<le> now - 60000
               then Inr (True, emit (Log Debug [] chunk) (s1\<lparr> lightLastUpdated := now \<rparr>))
               else Inr (stateChanged, s1))
         else if equal msgType GetFaultsReply then readFaults contents s
         else if equal msgType ControlTypesReply then
           Inr (interpretControlTypesReply (emit (Log Info ''Control types reply('' contents) s))
         else if equal msgType ConfigReply then
           Inr (False, emit (Log Info ''Config reply with MAC address ('' contents) s)
         else if equal msgType PreferencesReply then
           Inr (False, emit (Log Info ''Set preferences reply ('' contents) s)
         else if equal msgType KnownUnknownReply then Inr (False, s)
         else (case find_panel_reply msgType 0 of
                 Some id' \<Rightarrow> interpretControlPanelReply (id' + 1) contents s
               | None \<Rightarrow>
                   Inr (False, emit (Log Info ''Not understood a received spa message'' contents) s)))"

section \<open>Framer\<close>

text \<open>
  One round of the loop of \<^verbatim>\<open>readAndActOnSocketContents\<close> on a chunk that holds
  a whole message of \<open>msgLength + 2\<close> bytes: the new count of messages and the new
  state, unless the interpreter throws.
\<close>

definition act_on_front :: "bytes \<Rightarrow> nat \<Rightarrow> int \<Rightarrow> nat \<Rightarrow> spa \<Rightarrow> nat result" where
  "act_on_front chunk msgLength now messagesProcessed s =
     (if at chunk 0 = Some 0x7e \<and> at chunk (msgLength + 1) = Some 0x7e then
        (if msgLength > 0 then
           (let thisMsg = slice chunk 0 (msgLength + 2);
                checksum = thisMsg ! msgLength
            in if checksum \<noteq> compute_checksum [of_nat msgLength] (slice thisMsg 2 msgLength)
               then Inr (messagesProcessed + 1, emit (Log Error ''Bad checksum'' thisMsg) s)
               else (case readAndActOnMessage msgLength checksum thisMsg now s of
                       Inl thrown \<Rightarrow> Inl thrown
                     | Inr (somethingChanged, s1) \<Rightarrow>
                         Inr (messagesProcessed + 1,
                              if somethingChanged
                              then emit ChangesCallback (emit (Log Debug ''State change:'' []) s1)
                              else s1)))
         else Inr (messagesProcessed + 1, s))
      else Inr (messagesProcessed,
                emit (Log Error ''Message with bad terminations encountered:'' chunk) s))"

function parse_loop :: "bytes \<Rightarrow> int \<Rightarrow> nat \<Rightarrow> spa \<Rightarrow> nat result" where
  "parse_loop chunk now messagesProcessed s =
     (if length chunk > 0 then
        (if length chunk < 2
         then Inr (messagesProcessed,
                   emit (Log Error ''Very short message received (ignored)'' chunk) s)
         else if unat (chunk ! 1) > length chunk - 2
         then Inr (messagesProcessed, s\<lparr> pending := Some (chunk, now) \<rparr>)
         else (case act_on_front chunk (unat (chunk ! 1)) now messagesProcessed s of
                 Inl thrown \<Rightarrow> Inl thrown
               | Inr done \<Rightarrow>
                   parse_loop (slice_from chunk (unat (chunk ! 1) + 2)) now (fst done) (snd done)))
      else Inr (messagesProcessed, s))"
  by pat_completeness auto
termination
  by (relation "measure (\<lambda>(chunk, now, messagesProcessed, s). length chunk)")
    (auto simp: slice_from_def)
declare parse_loop.simps [simp del]

text \<open>
  \<^verbatim>\<open>readAndActOnSocketContents(chunk)\<close> at time \<open>now\<close>: a buffered fragment
  younger than a second is put in front of the chunk, an older one is dropped
  with a warning; then the loop runs. The result is the number of messages
  processed and the new state, unless the interpreter throws.
\<close>

definition readAndActOnSocketContents :: "bytes \<Rightarrow> int \<Rightarrow> spa \<Rightarrow> nat result" where
  "readAndActOnSocketContents chunk now s =
     (case pending s of
        Some (lastIncompleteChunk, lastChunkTimestamp) \<Rightarrow>
          (let diff = \<bar>lastChunkTimestamp - now\<bar>
           in if diff < 1000
              then parse_loop (concat_bytes lastIncompleteChunk chunk) now 0 (s\<lparr> pending := None \<rparr>)
              else parse_loop chunk now 0
                     ((emit (Log Warn ''Discarding old, incomplete message'' lastIncompleteChunk) s)
                        \<lparr> pending := None \<rparr>))
      | None \<Rightarrow> parse_loop chunk now 0 s)"

section \<open>Queries\<close>

text \<open>
  \<^verbatim>\<open>getTargetTemp()\<close>, the "set" temperature shown to the outside: the override
  if there is one, else the setpoint of the range the spa is in.
\<close>

definition getTargetTemp :: "spa \<Rightarrow> int option" where
  "getTargetTemp s =
     (case targetTempOverride s of
        Some override \<Rightarrow> Some override
      | None \<Rightarrow> (if tempRangeIsHigh s then targetTempModeHigh s else targetTempModeLow s))"

definition getTempRangeIsHigh :: "spa \<Rightarrow> bool" where
  "getTempRangeIsHigh s = (targetTempModeHigh s \<noteq> None)"

definition getCurrentTemp :: "spa \<Rightarrow> int option" where
  "getCurrentTemp s = (if currentTemp s = None then None else currentTemp s)"

definition getFlowState :: "spa \<Rightarrow> flow" where
  "getFlowState s = flow s"

section \<open>Sending a command\<close>

definition PrimaryRequest :: bytes where "PrimaryRequest = [0x0a, 0xbf, 0x22]"
definition GetFaultsMessageContents :: bytes where "GetFaultsMessageContents = [0x20, 0xff, 0x00]"
definition ControlTypesMessageContents :: bytes where "ControlTypesMessageContents = [0x00, 0x00, 0x01]"
definition ConfigRequest :: bytes where "ConfigRequest = [0x0a, 0xbf, 0x04]"
definition SetTargetTempRequest :: bytes where "SetTargetTempRequest = [0x0a, 0xbf, 0x1a]"
definition SetPumpRequest :: bytes where "SetPumpRequest = [0x0a, 0xbf, 0x17]"
definition SetLightRequest :: bytes where "SetLightRequest = [0x0a, 0xbf, 0x11]"

text \<open>The table of message types that have an encrypted equivalent.\<close>

definition etypes :: "byte \<rightharpoonup> byte" where
  "etypes = [0x11 \<mapsto> 0xcc, 0x17 \<mapsto> 0xcc, 0x1a \<mapsto> 0xcc, 0x1b \<mapsto> 0xcc, 0x20 \<mapsto> 0xcc]"

function copy_loop :: "bytes \<Rightarrow> nat \<Rightarrow> bytes \<Rightarrow> bytes" where
  "copy_loop bs i message =
     (if i < length bs then copy_loop bs (i + 1) (message[2 + i := bs ! i]) else message)"
  by pat_completeness auto
termination
  by (relation "measure (\<lambda>(bs, i, message). length bs - i)") auto
declare copy_loop.simps [simp del]

text \<open>The plain frame that \<^verbatim>\<open>sendMessageToSpa\<close> builds first.\<close>

definition plain_message :: "bytes \<Rightarrow> bytes \<Rightarrow> bytes" where
  "plain_message type payload =
     (let bs = concat_bytes type payload;
          message_length = length bs + 2;
          message0 = replicate (message_length + 2) (0 :: byte);
          message1 = message0[0 := 0x7e];
          message2 = message1[1 := of_nat message_length];
          message3 = copy_loop bs 0 message2;
          message4 = message3[length message3 - 2 :=
                       compute_checksum_encrypted (slice_from message3 1) (int message_length - 1)]
      in message4[length message4 - 1 := 0x7e])"

text \<open>The encrypted packet made from a plain frame whose type has the equivalent \<open>etype\<close>.\<close>

definition encrypted_packet :: "bytes \<Rightarrow> byte \<Rightarrow> bytes" where
  "encrypted_packet message etype =
     (let message1 = message[4 := etype];
          packet0 = concat_bytes (slice message1 0 5) [0x00];
          packet1 = concat_bytes packet0 (slice_from message1 5);
          packet2 = packet1[1 := packet1 ! 1 + 1];
          packet_length = unat (packet2 ! 1);
          packet3 = decrypt packet2
      in packet3[length packet3 - 2 :=
           compute_checksum_encrypted (slice_from packet3 1) (int packet_length - 1)])"

definition socket_write :: "bytes \<Rightarrow> spa \<Rightarrow> spa" where
  "socket_write packet s =
     (case socket s of None \<Rightarrow> s | Some written \<Rightarrow> s\<lparr> socket := Some (written @ [packet]) \<rparr>)"

text \<open>
  \<^verbatim>\<open>sendMessageToSpa(purpose, type, payload)\<close>. A type without an entry in the
  table leaves through the \<^verbatim>\<open>return\<close> before anything is logged or written.
\<close>

definition sendMessageToSpa :: "string \<Rightarrow> bytes \<Rightarrow> bytes \<Rightarrow> spa \<Rightarrow> spa" where
  "sendMessageToSpa purpose type payload s =
     (let message = plain_message type payload
      in case at message 4 of
           None \<Rightarrow> s
         | Some packet_type \<Rightarrow>
             (case etypes packet_type of
                None \<Rightarrow> s
              | Some etype \<Rightarrow>
                  (let packet = encrypted_packet message etype
                   in socket_write packet
                        (emit (Log Debug (''Sending ('' @ purpose @ ''):'') packet) s))))"

definition sendControlTypesRequest :: "spa \<Rightarrow> spa" where
  "sendControlTypesRequest s =
     sendMessageToSpa ''ControlTypesRequest'' PrimaryRequest ControlTypesMessageContents s"

definition send_request_for_faults_log :: "spa \<Rightarrow> spa" where
  "send_request_for_faults_log s =
     sendMessageToSpa ''Checking for any Spa faults'' PrimaryRequest GetFaultsMessageContents s"

definition send_config_request :: "spa \<Rightarrow> spa" where
  "send_config_request s = sendMessageToSpa ''ConfigRequest'' ConfigRequest [] s"

section \<open>Command engine\<close>

text \<open>
  The two commands are asynchronous: between two rounds of their loops they
  wait a second, and whatever else happens in that second (frames that arrive,
  timers, other commands) changes the state. \<open>env i\<close> is what happens to the
  state during the wait of round \<open>i\<close>.
\<close>

type_synonym env = "nat \<Rightarrow> spa \<Rightarrow> spa"

function press_loop :: "env \<Rightarrow> int \<Rightarrow> int \<Rightarrow> bytes \<Rightarrow> int \<Rightarrow> nat \<Rightarrow> spa \<Rightarrow> spa" where
  "press_loop env index desiredSpeed pumpcode timesToRun i s =
     (if int i < timesToRun
      then press_loop env index desiredSpeed pumpcode timesToRun (i + 1)
             (env i (if pumpsCurrentSpeed s index \<noteq> Some desiredSpeed
                     then sendMessageToSpa ''SetPumpRequest'' SetPumpRequest pumpcode s
                     else s))
      else s)"
  by pat_completeness auto
termination
  by (relation "measure (\<lambda>(env, index, desiredSpeed, pumpcode, timesToRun, i, s). nat (timesToRun - int i))")
    auto
declare press_loop.simps [simp del]

text \<open>
  The number of presses \<^verbatim>\<open>setPumpSpeed\<close> plans. A comparison with
  \<^verbatim>\<open>undefined\<close> is false; a missing range next to a present speed makes the
  count \<^verbatim>\<open>NaN\<close>, and the loop then runs no round, as for 0.
\<close>

definition timesToRun :: "spa \<Rightarrow> int \<Rightarrow> int \<Rightarrow> int" where
  "timesToRun s index desiredSpeed =
     (case pumpsCurrentSpeed s index of
        None \<Rightarrow> 0
      | Some current \<Rightarrow>
          if desiredSpeed > current then desiredSpeed - current
          else if desiredSpeed < current then
            (case pumpsSpeedRange s index of
               None \<Rightarrow> 0
             | Some speedRange \<Rightarrow>
                 (let n = (speedRange - current) + (desiredSpeed + 1)
                  in if isFilterMode s \<and> index = 1 then n - 1 else n))
          else 0)"

definition setPumpSpeed :: "env \<Rightarrow> int \<Rightarrow> int \<Rightarrow> spa \<Rightarrow> spa" where
  "setPumpSpeed env index0 desiredSpeed0 s =
     (let index = index0 - 1
      in if pumpsSpeedRange s index = Some 0
         then emit (Log Error ''Trying to set speed of'' []) s
         else if (case pumpsSpeedRange s index of None \<Rightarrow> False | Some speedRange \<Rightarrow> desiredSpeed0 > speedRange)
         then emit (Log Error ''Trying to set speed of'' []) s
         else
           (let lower = (isFilterMode s \<and> index = 1 \<and> desiredSpeed0 = 0);
                s1 = (if lower then emit (Log Warn ''Trying to turn off'' []) s else s);
                desiredSpeed = (if lower then 1 else desiredSpeed0);
                pumpcode = [word_of_int (index + 3)];
                s2 = s1\<lparr> pumpsOverrideSpeed := (pumpsOverrideSpeed s1)(index \<mapsto> desiredSpeed) \<rparr>;
                s3 = press_loop env index desiredSpeed pumpcode (timesToRun s2 index desiredSpeed) 0 s2;
                s4 = s3\<lparr> pumpsOverrideSpeed := (pumpsOverrideSpeed s3)(index \<mapsto> -1) \<rparr>
            in s4\<lparr> pumpsCurrentSpeed := (pumpsCurrentSpeed s4)(index \<mapsto> desiredSpeed) \<rparr>))"

text \<open>
  The setpoint as \<^verbatim>\<open>setTargetTemperature\<close> reads it:
  \<^verbatim>\<open>targetTempModeLow ?? targetTempModeHigh ?? 0\<close>.
\<close>

definition current_setpoint :: "spa \<Rightarrow> int" where
  "current_setpoint s =
     (case targetTempModeLow s of
        Some low \<Rightarrow> low
      | None \<Rightarrow> (case targetTempModeHigh s of Some high \<Rightarrow> high | None \<Rightarrow> 0))"

text \<open>
  The loop of \<^verbatim>\<open>setTargetTemperature\<close>, at most 60 rounds. In
  \<^verbatim>\<open>previousSetTemp != this.targetTempModeLow ?? this.targetTempModeHigh\<close> the
  comparison binds tighter than \<^verbatim>\<open>??\<close> and its result is never
  \<^verbatim>\<open>undefined\<close>, so only the low setpoint is compared.
\<close>

function settemp_loop :: "env \<Rightarrow> int \<Rightarrow> int \<Rightarrow> nat \<Rightarrow> bool \<Rightarrow> int \<Rightarrow> spa \<Rightarrow> spa" where
  "settemp_loop env temp original_temp i settemp_changed previousSetTemp s =
     (if i < 60 then
        (if settemp_changed then
           (let previousSetTemp1 = current_setpoint s;
                reqd_change = temp - current_setpoint s
            in if \<not> (reqd_change \<ge> 1) \<and> \<not> (reqd_change \<le> -1)
               then s\<lparr> targetTempOverride := None \<rparr>
               else
                 settemp_loop env temp original_temp (i + 1)
                   ((Some previousSetTemp1 \<noteq>
                       targetTempModeLow
                         (env i (sendMessageToSpa ''SetTargetTempRequest'' SetTargetTempRequest
                               [if reqd_change \<ge> 1 then 0x01 else 0x02]
                               (emit (Log Debug ''Changing temperature.  Current set temp: '' []) s))))
                    \<or> (previousSetTemp1 = original_temp \<and>
                        tempChangeMode
                          (env i (sendMessageToSpa ''SetTargetTempRequest'' SetTargetTempRequest
                               [if reqd_change \<ge> 1 then 0x01 else 0x02]
                               (emit (Log Debug ''Changing temperature.  Current set temp: '' []) s)))))
                   previousSetTemp1
                   (env i (sendMessageToSpa ''SetTargetTempRequest'' SetTargetTempRequest
                               [if reqd_change \<ge> 1 then 0x01 else 0x02]
                               (emit (Log Debug ''Changing temperature.  Current set temp: '' []) s))))
         else
           settemp_loop env temp original_temp (i + 1)
             ((Some previousSetTemp \<noteq> targetTempModeLow (env i s))
              \<or> (previousSetTemp = original_temp \<and> tempChangeMode (env i s)))
             previousSetTemp
             (env i s))
      else s\<lparr> targetTempOverride := None \<rparr>)"
  by pat_completeness auto
termination
  by (relation "measure (\<lambda>(env, temp, original_temp, i, settemp_changed, previousSetTemp, s). 60 - i)")
    auto
declare settemp_loop.simps [simp del]

definition setTargetTemperature :: "env \<Rightarrow> int \<Rightarrow> spa \<Rightarrow> spa" where
  "setTargetTemperature env temp s =
     (let s1 = s\<lparr> targetTempOverride := Some temp \<rparr>
      in settemp_loop env temp (current_setpoint s1) 0 True (current_setpoint s1) s1)"

section \<open>Session\<close>

definition shutdownSpaConnection :: "spa \<Rightarrow> spa" where
  "shutdownSpaConnection s =
     (let s1 = emit (Log Debug ''Shutting down Spa socket'' []) (s\<lparr> isCurrentlyConnectedToSpa := False \<rparr>);
          s2 = (if faultCheckIntervalId s1 \<noteq> None then s1\<lparr> faultCheckIntervalId := None \<rparr> else s1);
          s3 = (if stateUpdateCheckIntervalId s2 \<noteq> None
                then s2\<lparr> stateUpdateCheckIntervalId := None \<rparr> else s2)
      in if socket s3 \<noteq> None then s3\<lparr> socket := None \<rparr> else s3)"

definition get_socket :: "string \<Rightarrow> spa \<Rightarrow> spa" where
  "get_socket host s =
     (let s1 = (if isCurrentlyConnectedToSpa s
                then emit (Log Error ''Already connected, should not be trying again.'' []) s
                else s);
          s2 = emit (Log Debug ''Connecting to Spa at'' []) s1
      in s2\<lparr> socket := Some [] \<rparr>)"

text \<open>\<^verbatim>\<open>reconnect(host)\<close> at time \<open>now\<close>: the callback is due 20 seconds later.\<close>

definition reconnect :: "string \<Rightarrow> int \<Rightarrow> spa \<Rightarrow> spa" where
  "reconnect host now s =
     (if \<not> reconnecting s
      then s\<lparr> reconnecting := True, timers := timers s @ [(now + 20000, Reconnect host)] \<rparr>
      else s)"

text \<open>The handler that \<^verbatim>\<open>get_socket\<close> installs for the socket's \<^verbatim>\<open>error\<close> event.\<close>

definition on_socket_error :: "string \<Rightarrow> int \<Rightarrow> spa \<Rightarrow> spa" where
  "on_socket_error host now s =
     reconnect host now
       (shutdownSpaConnection
          (emit (Log Info ''Had error - closing old socket, retrying in 20s'' []) s))"

text \<open>The callback that \<^verbatim>\<open>reconnect\<close> hands to \<^verbatim>\<open>setTimeout\<close>.\<close>

fun run_task :: "task \<Rightarrow> spa \<Rightarrow> spa" where
  "run_task (Reconnect host) s = (get_socket host s)\<lparr> reconnecting := False \<rparr>"

fun run_tasks :: "task list \<Rightarrow> spa \<Rightarrow> spa" where
  "run_tasks [] s = s"
| "run_tasks (t # ts) s = run_tasks ts (run_task t s)"

text \<open>
  The event loop: before an event at time \<open>now\<close> is handled, the callbacks due
  by then have run, in the order in which they were scheduled.
\<close>

definition run_due :: "int \<Rightarrow> spa \<Rightarrow> spa" where
  "run_due now s =
     run_tasks (map snd (filter (\<lambda>(due, t). due \<le> now) (timers s)))
       (s\<lparr> timers := filter (\<lambda>(due, t). \<not> due \<le> now) (timers s) \<rparr>)"

fun socket_errors :: "string \<Rightarrow> int list \<Rightarrow> spa \<Rightarrow> spa" where
  "socket_errors host [] s = s"
| "socket_errors host (now # later) s = socket_errors host later (on_socket_error host now (run_due now s))"

text \<open>The constructor: the initial fields, then the first socket.\<close>

definition new_SpaClient :: "string \<Rightarrow> int \<Rightarrow> spa" where
  "new_SpaClient host now = get_socket host (initial_fields now)"

section \<open>Notions used in the properties\<close>

text \<open>Status frames read one after the other.\<close>

fun read_states :: "bytes list \<Rightarrow> spa \<Rightarrow> spa" where
  "read_states [] s = s"
| "read_states (b # bs) s = read_states bs (snd (readStateFromBytes b s))"

text \<open>
  A press of the button of the pump at \<open>index\<close> is a call of
  \<^verbatim>\<open>sendMessageToSpa\<close> for \<^verbatim>\<open>SetPumpRequest\<close> with the pump's code. It logs a
  line, which \<open>presses\<close> counts in the trace, and writes \<open>press_packet index\<close>
  to the socket.
\<close>

fun is_press :: "event \<Rightarrow> bool" where
  "is_press (Log lvl text bs) = (lvl = Debug \<and> text = ''Sending (SetPumpRequest):'')"
| "is_press ChangesCallback = False"
| "is_press SpaConfigurationKnownCallback = False"

definition presses :: "spa \<Rightarrow> nat" where
  "presses s = length (filter is_press (trace s))"

definition press_packet :: "int \<Rightarrow> bytes" where
  "press_packet index =
     encrypted_packet (plain_message SetPumpRequest [word_of_int (index + 3)]) 0xcc"

text \<open>
  A frame that the loop of \<^verbatim>\<open>readAndActOnSocketContents\<close> hands on to
  \<^verbatim>\<open>readAndActOnMessage\<close>: a sentinel at both ends, the declared length, at
  least one byte between the sentinels, and the checksum of plain frames.
\<close>

definition wellformed :: "bytes \<Rightarrow> bool" where
  "wellformed f =
     (3 \<le> length f \<and> unat (f ! 1) = length f - 2
      \<and> f ! 0 = 0x7e \<and> f ! (length f - 1) = 0x7e
      \<and> f ! (length f - 2) = compute_checksum [f ! 1] (slice f 2 (length f - 2)))"

text \<open>
  The value of \<^verbatim>\<open>key2\<close> that the loop of \<^verbatim>\<open>decrypt\<close> applies at index \<open>j\<close> of a
  packet of \<open>n\<close> bytes whose length byte is \<open>n - 2\<close>: it starts from
  \<^verbatim>\<open>packet_length - HEADER_LENGTH - 2\<close> and has been decremented modulo 64 once
  for every index from 6 to \<open>j\<close>.
\<close>

definition key2_at :: "nat \<Rightarrow> nat \<Rightarrow> byte" where
  "key2_at n j = word_of_int ((int (n - 2) - HEADER_LENGTH - 2 - int (j - 6) - 1) mod 64)"

section \<open>Properties of the outbound frame\<close>

lemma copy_loop_length [simp]: "length (copy_loop bs i m) = length m"
proof (induction bs i m rule: copy_loop.induct)
  case (1 bs i message)
  show ?case
  proof (cases "i < length bs")
    case True
    have "copy_loop bs i message = copy_loop bs (i + 1) (message[2 + i := bs ! i])"
      using True by (subst copy_loop.simps) simp
    then show ?thesis using 1 [OF True] by simp
  next
    case False
    then show ?thesis by (subst copy_loop.simps) simp
  qed
qed

lemma copy_loop_eq:
  "i \<le> length bs \<Longrightarrow> 2 + length bs \<le> length m \<Longrightarrow>
   copy_loop bs i m = take (2 + i) m @ drop i bs @ drop (2 + length bs) m"
proof (induction bs i m rule: copy_loop.induct)
  case (1 bs i message)
  show ?case
  proof (cases "i < length bs")
    case True
    have a: "take (2 + (i + 1)) (message[2 + i := bs ! i]) = take (2 + i) message @ [bs ! i]"
      using True 1(3) by (simp add: take_Suc_conv_app_nth)
    have b: "drop i bs = bs ! i # drop (i + 1) bs"
      using True by (simp add: Cons_nth_drop_Suc)
    have c: "drop (2 + length bs) (message[2 + i := bs ! i]) = drop (2 + length bs) message"
      using True by simp
    have "copy_loop bs i message = copy_loop bs (i + 1) (message[2 + i := bs ! i])"
      using True by (subst copy_loop.simps) simp
    also have "\<dots> = take (2 + (i + 1)) (message[2 + i := bs ! i]) @ drop (i + 1) bs
                     @ drop (2 + length bs) (message[2 + i := bs ! i])"
      using True 1 by simp
    finally show ?thesis by (simp only: a b c append_assoc append_Cons append_Nil)
  next
    case False
    with 1(2) have "i = length bs" by simp
    then show ?thesis by (subst copy_loop.simps) simp
  qed
qed

text \<open>With a type of three bytes, byte 4 of the plain frame is the last byte of the type.\<close>

lemma plain_message_at_4:
  assumes "3 \<le> length type"
  shows "at (plain_message type payload) 4 = Some (type ! 2)"
proof -
  let ?bs = "type @ payload"
  let ?m2 = "(replicate (length ?bs + 2 + 2) (0::byte))[0 := 0x7e, 1 := of_nat (length ?bs + 2)]"
  have c: "copy_loop ?bs 0 ?m2 = take 2 ?m2 @ ?bs @ drop (2 + length ?bs) ?m2"
    using copy_loop_eq [of 0 ?bs ?m2] by simp
  have n: "(take 2 ?m2 @ ?bs @ drop (2 + length ?bs) ?m2) ! 4 = type ! 2"
    using assms by (simp add: nth_append)
  have l: "4 < length (plain_message type payload)"
    using assms by (auto simp: plain_message_def Let_def concat_bytes_def)
  have "plain_message type payload ! 4 = copy_loop ?bs 0 ?m2 ! 4"
    using assms by (auto simp: plain_message_def Let_def concat_bytes_def)
  with n c l show ?thesis by (simp add: at_def)
qed

text \<open>
  C2. The claim: a command frame whose type byte is not in the table of
  encryptable types is sent over the socket unmodified. The code does not do
  this. The requests for the control types and for the fault log have type byte
  0x22 and the configuration request has 0x04; neither is in the table, and
  \<^verbatim>\<open>sendMessageToSpa\<close> returns before it logs or writes anything: the state,
  and with it the record of what was written to the socket, is unchanged.
\<close>

theorem requests_without_encrypted_type_write_nothing:
  "sendControlTypesRequest s = s
   \<and> send_request_for_faults_log s = s
   \<and> send_config_request s = s"
proof -
  have a: "at (plain_message PrimaryRequest payload) 4 = Some 0x22" for payload
    using plain_message_at_4 [of PrimaryRequest payload] by (simp add: PrimaryRequest_def)
  have b: "at (plain_message ConfigRequest []) 4 = Some 0x04"
    using plain_message_at_4 [of ConfigRequest "[]"] by (simp add: ConfigRequest_def)
  show ?thesis
    by (simp add: sendControlTypesRequest_def send_request_for_faults_log_def
        send_config_request_def sendMessageToSpa_def Let_def etypes_def a b)
qed

section \<open>Properties of the message interpreter\<close>

text \<open>
  C7, as the claim states it, fails: a fault-log frame with code 16 whose
  days-ago byte is 1 leaves the flow Good and reports no change, because
  \<^verbatim>\<open>readFaults\<close> looks at the age of the fault before it looks at the code.
\<close>

theorem readFaults_old_fault_counterexample:
  "value_of (readFaults [0, 0, 16, 1, 0, 0] (initial_fields 0)) = Some False
   \<and> flow (final (readFaults [0, 0, 16, 1, 0, 0] (initial_fields 0))) = FLOW_GOOD"
  by (simp add: readFaults_def Let_def emit_def at_def equal_def timeToString_throws_def
      value_of_def final_def initial_fields_def)

text \<open>
  C7, amended. For every fault-log frame whose contents reach at least to the
  minute of the fault (6 bytes or more), \<^verbatim>\<open>readFaults\<close> returns. If the fault is
  older than today (days-ago byte, byte 3, greater than 0) the flow is Good and
  no change is reported, whatever the code (byte 2); if it is from today the
  flow is Low for code 16 or 28, Failed for code 17, 27 or 30 and Good for every
  other code, and a change is reported exactly for those five codes.
\<close>

theorem readFaults_flow_by_age_and_code:
  assumes "6 \<le> length bs"
  shows "value_of (readFaults bs s) = Some (bs ! 3 = 0 \<and> bs ! 2 \<in> {16, 28, 17, 27, 30})
       \<and> flow (final (readFaults bs s)) =
           (if bs ! 3 > 0 then FLOW_GOOD
            else if bs ! 2 = 16 \<or> bs ! 2 = 28 then FLOW_LOW
            else if bs ! 2 = 17 \<or> bs ! 2 = 27 \<or> bs ! 2 = 30 then FLOW_FAILED
            else FLOW_GOOD)"
proof -
  from assms have bytes: "at bs 2 = Some (bs ! 2)" "at bs 3 = Some (bs ! 3)"
    "at bs 4 = Some (bs ! 4)" "at bs 5 = Some (bs ! 5)"
    by (simp_all add: at_def)
  have d0: "\<not> bs ! 3 > 0 \<Longrightarrow> bs ! 3 = 0" by (simp add: word_greater_zero_iff)
  show ?thesis using d0
    by (auto simp: readFaults_def Let_def emit_def bytes timeToString_throws_def
        value_of_def final_def)
qed

theorem readFaults_flow_by_age_and_code_witness:
  "6 \<le> length ([1, 0, 28, 0, 9, 30] :: bytes)
   \<and> value_of (readFaults [1, 0, 28, 0, 9, 30] (initial_fields 0)) = Some True
   \<and> flow (final (readFaults [1, 0, 28, 0, 9, 30] (initial_fields 0))) = FLOW_LOW"
proof -
  have h: "6 \<le> length ([1, 0, 28, 0, 9, 30] :: bytes)" by simp
  show ?thesis
    using h readFaults_flow_by_age_and_code [OF h, of "initial_fields 0"] by simp
qed

lemma currentTemp_readStateFromBytes:
  "currentTemp (snd (readStateFromBytes bs s)) =
     (if at bs 15 = Some 255 then None else byte_num (at bs 15))"
  by (simp add: readStateFromBytes_def Let_def)

lemma readAndActOnMessage_status:
  "equal (slice f 2 5) StateReply \<Longrightarrow>
   value_of (readAndActOnMessage len cs f now s) \<noteq> None
   \<and> currentTemp (final (readAndActOnMessage len cs f now s)) =
       currentTemp (snd (readStateFromBytes (decrypt f) s))"
  by (auto simp: readAndActOnMessage_def Let_def split_def interpretControlTypesReply_def emit_def
      value_of_def final_def)

text \<open>
  C8. After a status frame whose decrypted temperature byte (byte 15) is 255
  has been processed, \<^verbatim>\<open>getCurrentTemp\<close> returns \<^verbatim>\<open>undefined\<close>; after a
  following status frame whose byte 15 is 70, it returns 70. The frames go
  through \<^verbatim>\<open>readAndActOnMessage\<close>, which decrypts them first and which returns
  for both.
\<close>

theorem status_temperature_unknown_then_known:
  assumes "equal (slice f1 2 5) StateReply" and "at (decrypt f1) 15 = Some 255"
    and "equal (slice f2 2 5) StateReply" and "at (decrypt f2) 15 = Some 70"
  shows "getCurrentTemp (final (readAndActOnMessage l1 c1 f1 t1 s)) = None
       \<and> getCurrentTemp (final (readAndActOnMessage l2 c2 f2 t2
            (final (readAndActOnMessage l1 c1 f1 t1 s)))) = Some 70
       \<and> value_of (readAndActOnMessage l1 c1 f1 t1 s) \<noteq> None
       \<and> value_of (readAndActOnMessage l2 c2 f2 t2
            (final (readAndActOnMessage l1 c1 f1 t1 s))) \<noteq> None"
  using assms
  by (simp add: getCurrentTemp_def readAndActOnMessage_status currentTemp_readStateFromBytes
      byte_num_def)

theorem status_temperature_unknown_then_known_witness:
  "equal (slice [0x7e,0x26,0xff,0xaf,0xc4,0x1f,0x15,0x1b,0x1a,0x15,0x16,0xa6,0xec,0x16,0x10,0xec,
                 0x10,0x2d,0x0c,0x47,0x0b,0x68,0x08,0x0a,0x1d,0x05,0x01,0x22,0x06,0xb0,0x00,0x03,
                 0x68,0x67,0x3c,0x3f,0x3e,0x39,0xd4,0x7e] 2 5) StateReply
   \<and> at (decrypt [0x7e,0x26,0xff,0xaf,0xc4,0x1f,0x15,0x1b,0x1a,0x15,0x16,0xa6,0xec,0x16,0x10,0xec,
                 0x10,0x2d,0x0c,0x47,0x0b,0x68,0x08,0x0a,0x1d,0x05,0x01,0x22,0x06,0xb0,0x00,0x03,
                 0x68,0x67,0x3c,0x3f,0x3e,0x39,0xd4,0x7e]) 15 = Some 255
   \<and> equal (slice [0x7e,0x26,0xff,0xaf,0xc4,0x1f,0x15,0x1b,0x1a,0x15,0x16,0xa6,0xec,0x16,0x10,0x55,
                 0x10,0x2d,0x0c,0x47,0x0b,0x68,0x08,0x0a,0x1d,0x05,0x01,0x22,0x06,0xb0,0x00,0x03,
                 0x68,0x67,0x3c,0x3f,0x3e,0x39,0x49,0x7e] 2 5) StateReply
   \<and> at (decrypt [0x7e,0x26,0xff,0xaf,0xc4,0x1f,0x15,0x1b,0x1a,0x15,0x16,0xa6,0xec,0x16,0x10,0x55,
                 0x10,0x2d,0x0c,0x47,0x0b,0x68,0x08,0x0a,0x1d,0x05,0x01,0x22,0x06,0xb0,0x00,0x03,
                 0x68,0x67,0x3c,0x3f,0x3e,0x39,0x49,0x7e]) 15 = Some 70
   \<and> getCurrentTemp (final (readAndActOnMessage 38 0xd4
          [0x7e,0x26,0xff,0xaf,0xc4,0x1f,0x15,0x1b,0x1a,0x15,0x16,0xa6,0xec,0x16,0x10,0xec,
           0x10,0x2d,0x0c,0x47,0x0b,0x68,0x08,0x0a,0x1d,0x05,0x01,0x22,0x06,0xb0,0x00,0x03,
           0x68,0x67,0x3c,0x3f,0x3e,0x39,0xd4,0x7e] 1000 (new_SpaClient ''spa'' 0))) = None
   \<and> getCurrentTemp (final (readAndActOnMessage 38 0x49
          [0x7e,0x26,0xff,0xaf,0xc4,0x1f,0x15,0x1b,0x1a,0x15,0x16,0xa6,0xec,0x16,0x10,0x55,
           0x10,0x2d,0x0c,0x47,0x0b,0x68,0x08,0x0a,0x1d,0x05,0x01,0x22,0x06,0xb0,0x00,0x03,
           0x68,0x67,0x3c,0x3f,0x3e,0x39,0x49,0x7e] 2000
          (final (readAndActOnMessage 38 0xd4
          [0x7e,0x26,0xff,0xaf,0xc4,0x1f,0x15,0x1b,0x1a,0x15,0x16,0xa6,0xec,0x16,0x10,0xec,
           0x10,0x2d,0x0c,0x47,0x0b,0x68,0x08,0x0a,0x1d,0x05,0x01,0x22,0x06,0xb0,0x00,0x03,
           0x68,0x67,0x3c,0x3f,0x3e,0x39,0xd4,0x7e] 1000 (new_SpaClient ''spa'' 0))))) = Some 70"
proof -
  let ?f1 = "[0x7e,0x26,0xff,0xaf,0xc4,0x1f,0x15,0x1b,0x1a,0x15,0x16,0xa6,0xec,0x16,0x10,0xec,
                 0x10,0x2d,0x0c,0x47,0x0b,0x68,0x08,0x0a,0x1d,0x05,0x01,0x22,0x06,0xb0,0x00,0x03,
                 0x68,0x67,0x3c,0x3f,0x3e,0x39,0xd4,0x7e] :: bytes"
  let ?f2 = "[0x7e,0x26,0xff,0xaf,0xc4,0x1f,0x15,0x1b,0x1a,0x15,0x16,0xa6,0xec,0x16,0x10,0x55,
                 0x10,0x2d,0x0c,0x47,0x0b,0x68,0x08,0x0a,0x1d,0x05,0x01,0x22,0x06,0xb0,0x00,0x03,
                 0x68,0x67,0x3c,0x3f,0x3e,0x39,0x49,0x7e] :: bytes"
  have h1: "equal (slice ?f1 2 5) StateReply" by code_simp
  have h2: "at (decrypt ?f1) 15 = Some 255" by code_simp
  have h3: "equal (slice ?f2 2 5) StateReply" by code_simp
  have h4: "at (decrypt ?f2) 15 = Some 70" by code_simp
  show ?thesis
    using h1 h2 h3 h4
      status_temperature_unknown_then_known [OF h1 h2 h3 h4, of 38 "0xd4" 1000 "new_SpaClient ''spa'' 0" 38 "0x49" 2000]
    by simp
qed

lemma targetTempModeHigh_readStateFromBytes:
  "targetTempModeHigh (snd (readStateFromBytes g s)) =
     (if bits (at g 10) AND 4 \<noteq> 0 then byte_num (at g 21) else targetTempModeHigh s)"
  by (simp add: readStateFromBytes_def Let_def)

lemma read_states_keeps_high:
  "\<forall>g \<in> set later. 21 < length g \<Longrightarrow> targetTempModeHigh s \<noteq> None \<Longrightarrow>
   targetTempModeHigh (read_states later s) \<noteq> None"
proof (induction later arbitrary: s)
  case Nil
  then show ?case by simp
next
  case (Cons g later)
  have "targetTempModeHigh (snd (readStateFromBytes g s)) \<noteq> None"
    using Cons.prems by (simp add: targetTempModeHigh_readStateFromBytes byte_num_def at_def)
  with Cons show ?case by simp
qed

text \<open>
  C10. \<^verbatim>\<open>getTempRangeIsHigh\<close> returns true exactly when a high-range setpoint is
  recorded (\<^verbatim>\<open>targetTempModeHigh\<close> is defined); the flag \<^verbatim>\<open>tempRangeIsHigh\<close>
  decoded from the status frame has no influence on it. So once a status frame
  with the high-range bit has been read, it stays true through any later status
  frames, whatever range they report (a status frame here is one long enough to
  carry the setpoint, byte 21).
\<close>

theorem getTempRangeIsHigh_ignores_range_flag:
  "getTempRangeIsHigh s = (targetTempModeHigh s \<noteq> None)
   \<and> getTempRangeIsHigh (s\<lparr> tempRangeIsHigh := flag \<rparr>) = getTempRangeIsHigh s
   \<and> (bits (at f 10) AND 4 \<noteq> 0 \<and> 21 < length f \<and> (\<forall>g \<in> set later. 21 < length g)
        \<longrightarrow> getTempRangeIsHigh (read_states later (snd (readStateFromBytes f s))))"
proof -
  have "targetTempModeHigh (read_states later (snd (readStateFromBytes f s))) \<noteq> None"
    if "bits (at f 10) AND 4 \<noteq> 0" "21 < length f" "\<forall>g \<in> set later. 21 < length g"
  proof (rule read_states_keeps_high)
    show "\<forall>g \<in> set later. 21 < length g" by (rule that(3))
    show "targetTempModeHigh (snd (readStateFromBytes f s)) \<noteq> None"
      using that(1,2) by (simp add: targetTempModeHigh_readStateFromBytes byte_num_def at_def)
  qed
  then show ?thesis by (simp add: getTempRangeIsHigh_def)
qed

theorem getTempRangeIsHigh_ignores_range_flag_witness:
  "bits (at [0x7e,0x26,0xff,0xaf,0xc4,0x00,0x0d,0x00,0x00,0x08,0x0e,0xb9,0xf2,0x07,0x00,0x60,
             0x02,0x38,0x18,0x50,0x1d,0x61,0x00,0x01,0x17,0x08,0x0d,0x2d,0x08,0xb1,0x00,0x00,
             0x6a,0x62,0x38,0x38,0x38,0x00,0x8a,0x7e] 10) AND 4 \<noteq> 0
   \<and> getTempRangeIsHigh (read_states
         [ [0x7e,0x26,0xff,0xaf,0xc4,0x00,0x0d,0x00,0x00,0x08,0x0a,0xb9,0xf2,0x07,0x00,0x60,
           0x02,0x38,0x18,0x50,0x1d,0x50,0x00,0x01,0x17,0x08,0x0d,0x2d,0x08,0xb1,0x00,0x00,
           0x6a,0x62,0x38,0x38,0x38,0x00,0x8a,0x7e] ]
         (snd (readStateFromBytes
           [0x7e,0x26,0xff,0xaf,0xc4,0x00,0x0d,0x00,0x00,0x08,0x0e,0xb9,0xf2,0x07,0x00,0x60,
            0x02,0x38,0x18,0x50,0x1d,0x61,0x00,0x01,0x17,0x08,0x0d,0x2d,0x08,0xb1,0x00,0x00,
            0x6a,0x62,0x38,0x38,0x38,0x00,0x8a,0x7e] (initial_fields 0))))
   \<and> \<not> tempRangeIsHigh (read_states
         [ [0x7e,0x26,0xff,0xaf,0xc4,0x00,0x0d,0x00,0x00,0x08,0x0a,0xb9,0xf2,0x07,0x00,0x60,
           0x02,0x38,0x18,0x50,0x1d,0x50,0x00,0x01,0x17,0x08,0x0d,0x2d,0x08,0xb1,0x00,0x00,
           0x6a,0x62,0x38,0x38,0x38,0x00,0x8a,0x7e] ]
         (snd (readStateFromBytes
           [0x7e,0x26,0xff,0xaf,0xc4,0x00,0x0d,0x00,0x00,0x08,0x0e,0xb9,0xf2,0x07,0x00,0x60,
            0x02,0x38,0x18,0x50,0x1d,0x61,0x00,0x01,0x17,0x08,0x0d,0x2d,0x08,0xb1,0x00,0x00,
            0x6a,0x62,0x38,0x38,0x38,0x00,0x8a,0x7e] (initial_fields 0))))"
proof -
  let ?hi = "[0x7e,0x26,0xff,0xaf,0xc4,0x00,0x0d,0x00,0x00,0x08,0x0e,0xb9,0xf2,0x07,0x00,0x60,
             0x02,0x38,0x18,0x50,0x1d,0x61,0x00,0x01,0x17,0x08,0x0d,0x2d,0x08,0xb1,0x00,0x00,
             0x6a,0x62,0x38,0x38,0x38,0x00,0x8a,0x7e] :: bytes"
  let ?lo = "[0x7e,0x26,0xff,0xaf,0xc4,0x00,0x0d,0x00,0x00,0x08,0x0a,0xb9,0xf2,0x07,0x00,0x60,
           0x02,0x38,0x18,0x50,0x1d,0x50,0x00,0x01,0x17,0x08,0x0d,0x2d,0x08,0xb1,0x00,0x00,
           0x6a,0x62,0x38,0x38,0x38,0x00,0x8a,0x7e] :: bytes"
  have h1: "bits (at ?hi 10) AND 4 \<noteq> 0" by (simp add: at_def bits_def)
  have h2: "21 < length ?hi" by simp
  have h3: "\<forall>g \<in> set [?lo]. 21 < length g" by simp
  have flag: "\<not> tempRangeIsHigh (read_states [?lo] (snd (readStateFromBytes ?hi (initial_fields 0))))"
    by (simp add: readStateFromBytes_def Let_def at_def bits_def)
  show ?thesis
    using h1 h2 h3 flag
      getTempRangeIsHigh_ignores_range_flag [of "initial_fields 0" True ?hi "[?lo]"]
    by blast
qed

text \<open>
  C6. The claim: no operation takes a pump's current speed above its speed
  range, \<^verbatim>\<open>readStateFromBytes\<close> on arbitrary bytes included; the field's own
  comment says that the speed "takes values from 0 to pumpsSpeedRange". The code
  breaks this: the speed of the pump at index 2 is the raw two-bit field of byte
  8, while its range is fixed at 1. A status frame with a valid checksum whose
  decrypted byte 8 is 0x0c is accepted by the framer of a fresh client and
  leaves that pump at speed 3, above its range 1.
\<close>

theorem status_frame_breaks_speed_range:
  "pumpsCurrentSpeed (final (readAndActOnSocketContents
       [0x7e,0x26,0xff,0xaf,0xc4,0x1f,0x15,0x1b,0x16,0x15,0x16,0xa6,0xec,0x16,0x10,0x73,
        0x10,0x2d,0x0c,0x47,0x0b,0x68,0x08,0x0a,0x1d,0x05,0x01,0x22,0x06,0xb0,0x00,0x03,
        0x68,0x67,0x3c,0x3f,0x3e,0x39,0xd4,0x7e] 1000 (new_SpaClient ''spa'' 0))) 2 = Some 3
   \<and> pumpsSpeedRange (final (readAndActOnSocketContents
       [0x7e,0x26,0xff,0xaf,0xc4,0x1f,0x15,0x1b,0x16,0x15,0x16,0xa6,0xec,0x16,0x10,0x73,
        0x10,0x2d,0x0c,0x47,0x0b,0x68,0x08,0x0a,0x1d,0x05,0x01,0x22,0x06,0xb0,0x00,0x03,
        0x68,0x67,0x3c,0x3f,0x3e,0x39,0xd4,0x7e] 1000 (new_SpaClient ''spa'' 0))) 2 = Some 1
   \<and> value_of (readAndActOnSocketContents
       [0x7e,0x26,0xff,0xaf,0xc4,0x1f,0x15,0x1b,0x16,0x15,0x16,0xa6,0xec,0x16,0x10,0x73,
        0x10,0x2d,0x0c,0x47,0x0b,0x68,0x08,0x0a,0x1d,0x05,0x01,0x22,0x06,0xb0,0x00,0x03,
        0x68,0x67,0x3c,0x3f,0x3e,0x39,0xd4,0x7e] 1000 (new_SpaClient ''spa'' 0)) = Some 1"
  by code_simp

section \<open>Properties of the session\<close>

lemma on_socket_error_fresh:
  "\<not> reconnecting s \<Longrightarrow>
   timers (on_socket_error host now s) = timers s @ [(now + 20000, Reconnect host)]
   \<and> reconnecting (on_socket_error host now s)"
  by (simp add: on_socket_error_def reconnect_def shutdownSpaConnection_def emit_def Let_def)

lemma on_socket_error_guarded:
  "reconnecting s \<Longrightarrow>
   timers (on_socket_error host now s) = timers s \<and> reconnecting (on_socket_error host now s)"
  by (simp add: on_socket_error_def reconnect_def shutdownSpaConnection_def emit_def Let_def)

lemma run_due_none:
  "\<forall>(due, t) \<in> set (timers s). now < due \<Longrightarrow> run_due now s = s"
proof -
  assume a: "\<forall>(due, t) \<in> set (timers s). now < due"
  then have 1: "filter (\<lambda>(due, t). due \<le> now) (timers s) = []"
    by (auto simp: filter_empty_conv)
  from a have 2: "filter (\<lambda>(due, t). \<not> due \<le> now) (timers s) = timers s"
    by (auto simp: filter_id_conv)
  show ?thesis by (simp add: run_due_def 1 2)
qed

lemma run_due_reconnect:
  "timers s = [(due, Reconnect host)] \<Longrightarrow> due \<le> now \<Longrightarrow>
   timers (run_due now s) = [] \<and> \<not> reconnecting (run_due now s)"
  by (simp add: run_due_def get_socket_def emit_def Let_def)

text \<open>
  C9. Three socket errors at times \<open>t1 \<le> t2 \<le> t3\<close>, all before the reconnect
  scheduled by the first is due (\<open>t3 < t1 + 20000\<close>), on a client that is not
  reconnecting and has no callback waiting, leave exactly one reconnect
  scheduled, due 20 seconds after the first error. While the guard is set a call
  of \<^verbatim>\<open>reconnect\<close> changes nothing; once the scheduled callback has run, nothing
  is left waiting and the guard is clear again.
\<close>

theorem three_errors_one_reconnect:
  assumes "\<not> reconnecting s" and "timers s = []"
    and "t1 \<le> t2" and "t2 \<le> t3" and "t3 < t1 + 20000"
  shows "timers (socket_errors host [t1, t2, t3] s) = [(t1 + 20000, Reconnect host)]
       \<and> reconnecting (socket_errors host [t1, t2, t3] s)
       \<and> (\<forall>now u. reconnecting u \<longrightarrow> reconnect host now u = u)
       \<and> timers (run_due (t1 + 20000) (socket_errors host [t1, t2, t3] s)) = []
       \<and> \<not> reconnecting (run_due (t1 + 20000) (socket_errors host [t1, t2, t3] s))"
proof -
  define s1 where "s1 = on_socket_error host t1 (run_due t1 s)"
  define s2 where "s2 = on_socket_error host t2 (run_due t2 s1)"
  define s3 where "s3 = on_socket_error host t3 (run_due t3 s2)"
  have r0: "run_due t1 s = s" using assms(2) by (simp add: run_due_none)
  have a1: "timers s1 = [(t1 + 20000, Reconnect host)]" "reconnecting s1"
    using on_socket_error_fresh [OF assms(1), of host t1] assms(2) by (simp_all add: s1_def r0)
  have r1: "run_due t2 s1 = s1" using a1(1) assms by (simp add: run_due_none)
  have a2: "timers s2 = [(t1 + 20000, Reconnect host)]" "reconnecting s2"
    using on_socket_error_guarded [OF a1(2), of host t2] a1(1) by (simp_all add: s2_def r1)
  have r2: "run_due t3 s2 = s2" using a2(1) assms by (simp add: run_due_none)
  have a3: "timers s3 = [(t1 + 20000, Reconnect host)]" "reconnecting s3"
    using on_socket_error_guarded [OF a2(2), of host t3] a2(1) by (simp_all add: s3_def r2)
  have e: "socket_errors host [t1, t2, t3] s = s3"
    by (simp add: s1_def s2_def s3_def)
  have g: "\<forall>now u. reconnecting u \<longrightarrow> reconnect host now u = u"
    by (simp add: reconnect_def)
  show ?thesis
    unfolding e using a3 g run_due_reconnect [OF a3(1), of "t1 + 20000"] by simp
qed

theorem three_errors_one_reconnect_witness:
  "\<not> reconnecting (new_SpaClient ''spa'' 0) \<and> timers (new_SpaClient ''spa'' 0) = []
   \<and> (5000 :: int) \<le> 6000 \<and> (6000 :: int) \<le> 24999 \<and> (24999 :: int) < 5000 + 20000
   \<and> timers (socket_errors ''spa'' [5000, 6000, 24999] (new_SpaClient ''spa'' 0))
       = [(25000, Reconnect ''spa'')]
   \<and> \<not> reconnecting (run_due 25000 (socket_errors ''spa'' [5000, 6000, 24999] (new_SpaClient ''spa'' 0)))"
proof -
  have h1: "\<not> reconnecting (new_SpaClient ''spa'' 0)"
    by (simp add: new_SpaClient_def get_socket_def initial_fields_def emit_def)
  have h2: "timers (new_SpaClient ''spa'' 0) = []"
    by (simp add: new_SpaClient_def get_socket_def initial_fields_def emit_def)
  have h3: "(5000 :: int) \<le> 6000" "(6000 :: int) \<le> 24999" "(24999 :: int) < 5000 + 20000"
    by simp_all
  show ?thesis
    using h1 h2 three_errors_one_reconnect [OF h1 h2 h3, of "''spa''"]
    by simp
qed

section \<open>Properties of the command engine\<close>

lemma settemp_loop_clears:
  "targetTempOverride (settemp_loop env temp orig i ch prev s) = None"
proof (induction env temp orig i ch prev s rule: settemp_loop.induct)
  case (1 env temp original_temp i settemp_changed previousSetTemp s)
  show ?case
    by (subst settemp_loop.simps) (use 1 in \<open>auto simp: Let_def\<close>)
qed

lemma current_setpoint_override [simp]:
  "current_setpoint (s\<lparr> targetTempOverride := v \<rparr>) = current_setpoint s"
  by (simp add: current_setpoint_def split: option.splits)

text \<open>
  At the value that the routine itself reads as the setpoint, the only effect is
  that the override is undefined: nothing is logged and nothing is written.
\<close>

lemma setTargetTemperature_at_read_setpoint:
  "setTargetTemperature env (current_setpoint s) s = s\<lparr> targetTempOverride := None \<rparr>"
  unfolding setTargetTemperature_def Let_def
  by (subst settemp_loop.simps) (simp add: Let_def)

text \<open>
  C4. The claim: \<^verbatim>\<open>setTargetTemperature\<close> leaves \<^verbatim>\<open>targetTempOverride\<close> undefined
  on every return, and sends no button command when the temperature asked for
  is the current setpoint. The first half holds for every state, temperature
  and course of the waits. The second half does not: the routine compares with
  \<^verbatim>\<open>targetTempModeLow ?? targetTempModeHigh ?? 0\<close>, not with the setpoint of the
  range the spa is in. A fresh client that has received a low-range status
  frame with setpoint 80 and then a high-range status frame with setpoint 97
  shows 97 as its set temperature, while the routine reads 80; asked for 97,
  with the state left alone during the waits, it writes one Temp-Up packet to
  the socket, on which nothing had been written before.
\<close>

theorem setTargetTemperature_presses_up_at_setpoint:
  "targetTempOverride (setTargetTemperature env temp s) = None
   \<and> getTargetTemp (final (readAndActOnSocketContents
          [0x7e,0x26,0xff,0xaf,0xc4,0x1f,0x15,0x1b,0x1a,0x15,0x12,0xa6,0xec,0x16,0x10,0x73,
           0x10,0x2d,0x0c,0x47,0x0b,0x68,0x08,0x0a,0x1d,0x05,0x01,0x22,0x06,0xb0,0x00,0x03,
           0x68,0x67,0x3c,0x3f,0x3e,0x39,0x75,0x7e] 2000
          (final (readAndActOnSocketContents
          [0x7e,0x26,0xff,0xaf,0xc4,0x1f,0x15,0x1b,0x1a,0x15,0x16,0xa6,0xec,0x16,0x10,0x73,
           0x10,0x2d,0x0c,0x47,0x0b,0x59,0x08,0x0a,0x1d,0x05,0x01,0x22,0x06,0xb0,0x00,0x03,
           0x68,0x67,0x3c,0x3f,0x3e,0x39,0xba,0x7e] 1000
          (new_SpaClient ''spa'' 0))))) = Some 97
   \<and> current_setpoint (final (readAndActOnSocketContents
          [0x7e,0x26,0xff,0xaf,0xc4,0x1f,0x15,0x1b,0x1a,0x15,0x12,0xa6,0xec,0x16,0x10,0x73,
           0x10,0x2d,0x0c,0x47,0x0b,0x68,0x08,0x0a,0x1d,0x05,0x01,0x22,0x06,0xb0,0x00,0x03,
           0x68,0x67,0x3c,0x3f,0x3e,0x39,0x75,0x7e] 2000
          (final (readAndActOnSocketContents
          [0x7e,0x26,0xff,0xaf,0xc4,0x1f,0x15,0x1b,0x1a,0x15,0x16,0xa6,0xec,0x16,0x10,0x73,
           0x10,0x2d,0x0c,0x47,0x0b,0x59,0x08,0x0a,0x1d,0x05,0x01,0x22,0x06,0xb0,0x00,0x03,
           0x68,0x67,0x3c,0x3f,0x3e,0x39,0xba,0x7e] 1000
          (new_SpaClient ''spa'' 0))))) = 80
   \<and> socket (final (readAndActOnSocketContents
          [0x7e,0x26,0xff,0xaf,0xc4,0x1f,0x15,0x1b,0x1a,0x15,0x12,0xa6,0xec,0x16,0x10,0x73,
           0x10,0x2d,0x0c,0x47,0x0b,0x68,0x08,0x0a,0x1d,0x05,0x01,0x22,0x06,0xb0,0x00,0x03,
           0x68,0x67,0x3c,0x3f,0x3e,0x39,0x75,0x7e] 2000
          (final (readAndActOnSocketContents
          [0x7e,0x26,0xff,0xaf,0xc4,0x1f,0x15,0x1b,0x1a,0x15,0x16,0xa6,0xec,0x16,0x10,0x73,
           0x10,0x2d,0x0c,0x47,0x0b,0x59,0x08,0x0a,0x1d,0x05,0x01,0x22,0x06,0xb0,0x00,0x03,
           0x68,0x67,0x3c,0x3f,0x3e,0x39,0xba,0x7e] 1000
          (new_SpaClient ''spa'' 0))))) = Some []
   \<and> socket (setTargetTemperature (\<lambda>i u. u) 97 (final (readAndActOnSocketContents
          [0x7e,0x26,0xff,0xaf,0xc4,0x1f,0x15,0x1b,0x1a,0x15,0x12,0xa6,0xec,0x16,0x10,0x73,
           0x10,0x2d,0x0c,0x47,0x0b,0x68,0x08,0x0a,0x1d,0x05,0x01,0x22,0x06,0xb0,0x00,0x03,
           0x68,0x67,0x3c,0x3f,0x3e,0x39,0x75,0x7e] 2000
          (final (readAndActOnSocketContents
          [0x7e,0x26,0xff,0xaf,0xc4,0x1f,0x15,0x1b,0x1a,0x15,0x16,0xa6,0xec,0x16,0x10,0x73,
           0x10,0x2d,0x0c,0x47,0x0b,0x59,0x08,0x0a,0x1d,0x05,0x01,0x22,0x06,0xb0,0x00,0x03,
           0x68,0x67,0x3c,0x3f,0x3e,0x39,0xba,0x7e] 1000
          (new_SpaClient ''spa'' 0))))))
       = Some [ [0x7e, 0x07, 0x0a, 0xbf, 0xcc, 0x00, 0xe1, 0xc6, 0x7e] ]"
proof -
  have general: "targetTempOverride (setTargetTemperature env temp s) = None"
    by (simp add: setTargetTemperature_def Let_def settemp_loop_clears)
  have shown: "getTargetTemp (final (readAndActOnSocketContents
          [0x7e,0x26,0xff,0xaf,0xc4,0x1f,0x15,0x1b,0x1a,0x15,0x12,0xa6,0xec,0x16,0x10,0x73,
           0x10,0x2d,0x0c,0x47,0x0b,0x68,0x08,0x0a,0x1d,0x05,0x01,0x22,0x06,0xb0,0x00,0x03,
           0x68,0x67,0x3c,0x3f,0x3e,0x39,0x75,0x7e] 2000
          (final (readAndActOnSocketContents
          [0x7e,0x26,0xff,0xaf,0xc4,0x1f,0x15,0x1b,0x1a,0x15,0x16,0xa6,0xec,0x16,0x10,0x73,
           0x10,0x2d,0x0c,0x47,0x0b,0x59,0x08,0x0a,0x1d,0x05,0x01,0x22,0x06,0xb0,0x00,0x03,
           0x68,0x67,0x3c,0x3f,0x3e,0x39,0xba,0x7e] 1000
          (new_SpaClient ''spa'' 0))))) = Some 97"
    by code_simp
  have read: "current_setpoint (final (readAndActOnSocketContents
          [0x7e,0x26,0xff,0xaf,0xc4,0x1f,0x15,0x1b,0x1a,0x15,0x12,0xa6,0xec,0x16,0x10,0x73,
           0x10,0x2d,0x0c,0x47,0x0b,0x68,0x08,0x0a,0x1d,0x05,0x01,0x22,0x06,0xb0,0x00,0x03,
           0x68,0x67,0x3c,0x3f,0x3e,0x39,0x75,0x7e] 2000
          (final (readAndActOnSocketContents
          [0x7e,0x26,0xff,0xaf,0xc4,0x1f,0x15,0x1b,0x1a,0x15,0x16,0xa6,0xec,0x16,0x10,0x73,
           0x10,0x2d,0x0c,0x47,0x0b,0x59,0x08,0x0a,0x1d,0x05,0x01,0x22,0x06,0xb0,0x00,0x03,
           0x68,0x67,0x3c,0x3f,0x3e,0x39,0xba,0x7e] 1000
          (new_SpaClient ''spa'' 0))))) = 80"
    by code_simp
  have quiet: "socket (final (readAndActOnSocketContents
          [0x7e,0x26,0xff,0xaf,0xc4,0x1f,0x15,0x1b,0x1a,0x15,0x12,0xa6,0xec,0x16,0x10,0x73,
           0x10,0x2d,0x0c,0x47,0x0b,0x68,0x08,0x0a,0x1d,0x05,0x01,0x22,0x06,0xb0,0x00,0x03,
           0x68,0x67,0x3c,0x3f,0x3e,0x39,0x75,0x7e] 2000
          (final (readAndActOnSocketContents
          [0x7e,0x26,0xff,0xaf,0xc4,0x1f,0x15,0x1b,0x1a,0x15,0x16,0xa6,0xec,0x16,0x10,0x73,
           0x10,0x2d,0x0c,0x47,0x0b,0x59,0x08,0x0a,0x1d,0x05,0x01,0x22,0x06,0xb0,0x00,0x03,
           0x68,0x67,0x3c,0x3f,0x3e,0x39,0xba,0x7e] 1000
          (new_SpaClient ''spa'' 0))))) = Some []"
    by code_simp
  have sent: "socket (setTargetTemperature (\<lambda>i u. u) 97 (final (readAndActOnSocketContents
          [0x7e,0x26,0xff,0xaf,0xc4,0x1f,0x15,0x1b,0x1a,0x15,0x12,0xa6,0xec,0x16,0x10,0x73,
           0x10,0x2d,0x0c,0x47,0x0b,0x68,0x08,0x0a,0x1d,0x05,0x01,0x22,0x06,0xb0,0x00,0x03,
           0x68,0x67,0x3c,0x3f,0x3e,0x39,0x75,0x7e] 2000
          (final (readAndActOnSocketContents
          [0x7e,0x26,0xff,0xaf,0xc4,0x1f,0x15,0x1b,0x1a,0x15,0x16,0xa6,0xec,0x16,0x10,0x73,
           0x10,0x2d,0x0c,0x47,0x0b,0x59,0x08,0x0a,0x1d,0x05,0x01,0x22,0x06,0xb0,0x00,0x03,
           0x68,0x67,0x3c,0x3f,0x3e,0x39,0xba,0x7e] 1000
          (new_SpaClient ''spa'' 0))))))
       = Some [ [0x7e, 0x07, 0x0a, 0xbf, 0xcc, 0x00, 0xe1, 0xc6, 0x7e] ]"
    by code_simp
  show ?thesis using general shown read quiet sent by (intro conjI)
qed

lemma presses_emit: "presses (emit e s) = presses s + (if is_press e then 1 else 0)"
  by (simp add: presses_def emit_def)

lemma trace_socket_write [simp]: "trace (socket_write p s) = trace s"
  by (simp add: socket_write_def split: option.splits)

lemma pumpsCurrentSpeed_socket_write [simp]:
  "pumpsCurrentSpeed (socket_write p s) = pumpsCurrentSpeed s"
  by (simp add: socket_write_def split: option.splits)

lemma socket_socket_write:
  "socket (socket_write p s) = map_option (\<lambda>written. written @ [p]) (socket s)"
  by (simp add: socket_write_def split: option.splits)

lemma SetPumpRequest_sent:
  "sendMessageToSpa ''SetPumpRequest'' SetPumpRequest pumpcode s =
     socket_write (encrypted_packet (plain_message SetPumpRequest pumpcode) 0xcc)
       (emit (Log Debug ''Sending (SetPumpRequest):''
                (encrypted_packet (plain_message SetPumpRequest pumpcode) 0xcc)) s)"
proof -
  have "at (plain_message SetPumpRequest pumpcode) 4 = Some 0x17"
    using plain_message_at_4 [of SetPumpRequest pumpcode] by (simp add: SetPumpRequest_def)
  then show ?thesis by (simp add: sendMessageToSpa_def Let_def etypes_def)
qed

lemma presses_SetPumpRequest:
  "presses (sendMessageToSpa ''SetPumpRequest'' SetPumpRequest pumpcode s) = presses s + 1"
  by (simp add: SetPumpRequest_sent presses_def emit_def)

lemma socket_SetPumpRequest:
  "socket (sendMessageToSpa ''SetPumpRequest'' SetPumpRequest pumpcode s) =
     map_option (\<lambda>written. written @ [encrypted_packet (plain_message SetPumpRequest pumpcode) 0xcc])
       (socket s)"
  by (simp add: SetPumpRequest_sent socket_socket_write emit_def)

lemma pumpsCurrentSpeed_SetPumpRequest:
  "pumpsCurrentSpeed (sendMessageToSpa ''SetPumpRequest'' SetPumpRequest pumpcode s) =
     pumpsCurrentSpeed s"
  by (simp add: SetPumpRequest_sent emit_def)

lemma press_loop_done: "\<not> int i < n \<Longrightarrow> press_loop env index d pc n i s = s"
  by (subst press_loop.simps) simp

lemma press_loop_step:
  "int i < n \<Longrightarrow> pumpsCurrentSpeed s index \<noteq> Some d \<Longrightarrow>
   press_loop env index d pc n i s =
     press_loop env index d pc n (Suc i)
       (env i (sendMessageToSpa ''SetPumpRequest'' SetPumpRequest pc s))"
  by (subst press_loop.simps) simp

lemma presses_fields [simp]:
  "presses (s\<lparr> pumpsOverrideSpeed := a \<rparr>) = presses s"
  "presses (s\<lparr> pumpsCurrentSpeed := b \<rparr>) = presses s"
  by (simp_all add: presses_def)

lemma setPumpSpeed_to_low:
  assumes "pumpsSpeedRange s index = Some 2"
    and "pc = [word_of_int (index + 3)]"
    and "s2 = s\<lparr> pumpsOverrideSpeed := (pumpsOverrideSpeed s)(index \<mapsto> 1) \<rparr>"
  shows "presses (setPumpSpeed env (index + 1) 1 s) =
           presses (press_loop env index 1 pc (timesToRun s2 index 1) 0 s2)"
    and "socket (setPumpSpeed env (index + 1) 1 s) =
           socket (press_loop env index 1 pc (timesToRun s2 index 1) 0 s2)"
  using assms by (simp_all add: setPumpSpeed_def Let_def)

text \<open>
  C5. Take a pump at (zero-based) \<open>index\<close>, which the caller names
  \<open>index + 1\<close>, with speed range 2 and current speed 2 (High), and ask for
  speed 1 (Low); nothing but the routine itself presses buttons or touches the
  socket meanwhile. With filter mode off, and the speed of the pump unchanged by
  what happens during the waits, \<^verbatim>\<open>setPumpSpeed\<close> issues exactly 2 presses:
  two lines are logged and, if there is a socket, exactly two press packets are
  written to it. With filter mode on and the pump being the filter pump
  (index 1), it issues exactly 1 press: one line, one packet.
\<close>

theorem setPumpSpeed_high_to_low:
  assumes range: "pumpsSpeedRange s index = Some 2"
    and speed: "pumpsCurrentSpeed s index = Some 2"
    and quiet: "\<forall>i u. presses (env i u) = presses u \<and> socket (env i u) = socket u"
  shows "(\<not> isFilterMode s \<and> (\<forall>i u. pumpsCurrentSpeed (env i u) index = pumpsCurrentSpeed u index)
            \<longrightarrow> presses (setPumpSpeed env (index + 1) 1 s) = presses s + 2
                \<and> socket (setPumpSpeed env (index + 1) 1 s) =
                    map_option (\<lambda>written. written @ [press_packet index, press_packet index])
                      (socket s))
       \<and> (isFilterMode s \<and> index = 1
            \<longrightarrow> presses (setPumpSpeed env (index + 1) 1 s) = presses s + 1
                \<and> socket (setPumpSpeed env (index + 1) 1 s) =
                    map_option (\<lambda>written. written @ [press_packet index]) (socket s))"
proof -
  define pc :: bytes where "pc = [word_of_int (index + 3)]"
  define s2 where "s2 = s\<lparr> pumpsOverrideSpeed := (pumpsOverrideSpeed s)(index \<mapsto> 1) \<rparr>"
  define u1 where "u1 = env 0 (sendMessageToSpa ''SetPumpRequest'' SetPumpRequest pc s2)"
  define u2 where "u2 = env (Suc 0) (sendMessageToSpa ''SetPumpRequest'' SetPumpRequest pc u1)"
  note start = setPumpSpeed_to_low [OF range pc_def s2_def, of env]
  have pkt: "encrypted_packet (plain_message SetPumpRequest pc) 0xcc = press_packet index"
    by (simp add: press_packet_def pc_def)
  have sp2: "pumpsCurrentSpeed s2 index \<noteq> Some 1" using speed by (simp add: s2_def)
  have p2: "presses s2 = presses s" and k2: "socket s2 = socket s" by (simp_all add: s2_def)
  have p1: "presses u1 = presses s + 1"
    using quiet by (simp add: u1_def presses_SetPumpRequest p2)
  have k1: "socket u1 = map_option (\<lambda>written. written @ [press_packet index]) (socket s)"
    using quiet by (simp add: u1_def socket_SetPumpRequest k2 pkt)
  have first: "int 0 < n \<Longrightarrow> press_loop env index 1 pc n 0 s2 = press_loop env index 1 pc n (Suc 0) u1" for n
    unfolding u1_def by (rule press_loop_step) (simp_all add: sp2)
  have off: "presses (setPumpSpeed env (index + 1) 1 s) = presses s + 2
           \<and> socket (setPumpSpeed env (index + 1) 1 s) =
               map_option (\<lambda>written. written @ [press_packet index, press_packet index]) (socket s)"
    if off: "\<not> isFilterMode s \<and> (\<forall>i u. pumpsCurrentSpeed (env i u) index = pumpsCurrentSpeed u index)"
  proof -
    have n: "timesToRun s2 index 1 = 2"
      using range speed off by (simp add: timesToRun_def Let_def s2_def)
    have sp1: "pumpsCurrentSpeed u1 index \<noteq> Some 1"
      using off speed by (simp add: u1_def s2_def pumpsCurrentSpeed_SetPumpRequest)
    have "press_loop env index 1 pc 2 0 s2 = press_loop env index 1 pc 2 (Suc 0) u1"
      by (rule first) simp
    also have "\<dots> = press_loop env index 1 pc 2 (Suc (Suc 0)) u2"
      unfolding u2_def by (rule press_loop_step) (simp_all add: sp1)
    also have "\<dots> = u2"
      by (rule press_loop_done) simp
    finally have loop: "press_loop env index 1 pc 2 0 s2 = u2" .
    have a: "presses u2 = presses s + 2"
      using quiet by (simp add: u2_def presses_SetPumpRequest p1)
    have b: "socket u2 =
        map_option (\<lambda>written. written @ [press_packet index, press_packet index]) (socket s)"
      using quiet by (simp add: u2_def socket_SetPumpRequest k1 pkt option.map_comp comp_def)
    show ?thesis unfolding start n loop using a b by simp
  qed
  have on: "presses (setPumpSpeed env (index + 1) 1 s) = presses s + 1
          \<and> socket (setPumpSpeed env (index + 1) 1 s) =
              map_option (\<lambda>written. written @ [press_packet index]) (socket s)"
    if on: "isFilterMode s \<and> index = 1"
  proof -
    have n: "timesToRun s2 index 1 = 1"
      using range speed on by (simp add: timesToRun_def Let_def s2_def)
    have "press_loop env index 1 pc 1 0 s2 = press_loop env index 1 pc 1 (Suc 0) u1"
      by (rule first) simp
    also have "\<dots> = u1"
      by (rule press_loop_done) simp
    finally have loop: "press_loop env index 1 pc 1 0 s2 = u1" .
    show ?thesis unfolding start n loop using p1 k1 by simp
  qed
  show ?thesis using off on by blast
qed

theorem setPumpSpeed_high_to_low_witness:
  "pumpsSpeedRange ((new_SpaClient ''spa'' 0)\<lparr> pumpsCurrentSpeed := (pumpsCurrentSpeed (new_SpaClient ''spa'' 0))(1 \<mapsto> 2) \<rparr>) 1 = Some 2
   \<and> pumpsCurrentSpeed ((new_SpaClient ''spa'' 0)\<lparr> pumpsCurrentSpeed := (pumpsCurrentSpeed (new_SpaClient ''spa'' 0))(1 \<mapsto> 2) \<rparr>) 1 = Some 2
   \<and> socket (new_SpaClient ''spa'' 0) = Some []
   \<and> press_packet 1 = [0x7e, 0x07, 0x0a, 0xbf, 0xcc, 0x00, 0xe4, 0xdd, 0x7e]
   \<and> presses (setPumpSpeed (\<lambda>i u. u) 2 1
         ((new_SpaClient ''spa'' 0)\<lparr> pumpsCurrentSpeed := (pumpsCurrentSpeed (new_SpaClient ''spa'' 0))(1 \<mapsto> 2) \<rparr>)) = 2
   \<and> socket (setPumpSpeed (\<lambda>i u. u) 2 1
         ((new_SpaClient ''spa'' 0)\<lparr> pumpsCurrentSpeed := (pumpsCurrentSpeed (new_SpaClient ''spa'' 0))(1 \<mapsto> 2) \<rparr>))
       = Some [press_packet 1, press_packet 1]
   \<and> presses (setPumpSpeed (\<lambda>i u. u) 2 1
         ((new_SpaClient ''spa'' 0)\<lparr> pumpsCurrentSpeed := (pumpsCurrentSpeed (new_SpaClient ''spa'' 0))(1 \<mapsto> 2),
                                isFilterMode := True \<rparr>)) = 1
   \<and> socket (setPumpSpeed (\<lambda>i u. u) 2 1
         ((new_SpaClient ''spa'' 0)\<lparr> pumpsCurrentSpeed := (pumpsCurrentSpeed (new_SpaClient ''spa'' 0))(1 \<mapsto> 2),
                                isFilterMode := True \<rparr>))
       = Some [press_packet 1]"
proof -
  let ?off = "(new_SpaClient ''spa'' 0)\<lparr> pumpsCurrentSpeed := (pumpsCurrentSpeed (new_SpaClient ''spa'' 0))(1 \<mapsto> 2) \<rparr>"
  let ?on = "?off\<lparr> isFilterMode := True \<rparr>"
  have new: "new_SpaClient ''spa'' 0 = (emit (Log Debug ''Connecting to Spa at'' []) (initial_fields 0))\<lparr> socket := Some [] \<rparr>"
    by (simp add: new_SpaClient_def get_socket_def Let_def initial_fields_def)
  have r: "pumpsSpeedRange ?off 1 = Some 2" "pumpsSpeedRange ?on 1 = Some 2"
    by (simp_all add: new emit_def initial_fields_def)
  have c: "pumpsCurrentSpeed ?off 1 = Some 2" "pumpsCurrentSpeed ?on 1 = Some 2"
    by simp_all
  have q: "\<forall>i u. presses ((\<lambda>i u. u) i u) = presses u \<and> socket ((\<lambda>i u. u) i u) = socket u" by simp
  have f: "\<not> isFilterMode ?off" "isFilterMode ?on" by (simp_all add: new emit_def initial_fields_def)
  have z: "presses (new_SpaClient ''spa'' 0) = 0" "presses ?off = 0" "presses ?on = 0"
    by (simp_all add: presses_def new emit_def initial_fields_def)
  have k: "socket (new_SpaClient ''spa'' 0) = Some []" "socket ?off = Some []" "socket ?on = Some []"
    by (simp_all add: new)
  have pkt: "press_packet 1 = [0x7e, 0x07, 0x0a, 0xbf, 0xcc, 0x00, 0xe4, 0xdd, 0x7e]"
    by code_simp
  from setPumpSpeed_high_to_low [OF r(1) c(1) q] f(1)
  have a: "presses (setPumpSpeed (\<lambda>i u. u) 2 1 ?off) = 2"
    "socket (setPumpSpeed (\<lambda>i u. u) 2 1 ?off) = Some [press_packet 1, press_packet 1]"
    by (simp_all add: z k)
  from setPumpSpeed_high_to_low [OF r(2) c(2) q] f(2)
  have b: "presses (setPumpSpeed (\<lambda>i u. u) 2 1 ?on) = 1"
    "socket (setPumpSpeed (\<lambda>i u. u) 2 1 ?on) = Some [press_packet 1]"
    by (simp_all add: z k)
  show ?thesis using r(1) c(1) k(1) pkt a b by (intro conjI)
qed

section \<open>Properties of the framer\<close>

lemma pending_None_eq: "pending s = None \<Longrightarrow> s\<lparr> pending := None \<rparr> = s"
  by (cases s) simp

lemma parse_loop_incomplete:
  "2 \<le> length c \<Longrightarrow> length c - 2 < unat (c ! 1) \<Longrightarrow>
   parse_loop c now n s = Inr (n, s\<lparr> pending := Some (c, now) \<rparr>)"
  by (subst parse_loop.simps) auto

lemma parse_loop_Nil: "parse_loop [] now n s = Inr (n, s)"
  by (subst parse_loop.simps) simp

text \<open>
  A well-formed frame on its own goes to \<^verbatim>\<open>readAndActOnMessage\<close> once; if that
  returns, the frame counts as one message and the host is called back on a
  change.
\<close>

lemma parse_loop_wellformed:
  assumes "wellformed f"
  shows "parse_loop f now n s =
           (case readAndActOnMessage (length f - 2) (f ! (length f - 2)) f now s of
              Inl thrown \<Rightarrow> Inl thrown
            | Inr (somethingChanged, s1) \<Rightarrow>
                Inr (n + 1,
                     if somethingChanged
                     then emit ChangesCallback (emit (Log Debug ''State change:'' []) s1)
                     else s1))"
proof -
  define m where "m = unat (f ! 1)"
  from assms have len: "3 \<le> length f" and m: "m = length f - 2"
    by (simp_all add: wellformed_def m_def)
  then have m1: "m + 1 = length f - 1" by simp
  from assms len have a: "at f 0 = Some 0x7e" "at f (m + 1) = Some 0x7e"
    unfolding m1 by (auto simp: wellformed_def at_def)
  have byte: "(of_nat m :: byte) = f ! 1" by (simp add: m_def)
  from assms have cs: "f ! m = compute_checksum [of_nat m] (slice f 2 m)"
    unfolding byte by (simp add: wellformed_def m)
  have whole: "slice f 0 (m + 2) = f" using len m by (simp add: slice_def)
  have pos: "0 < m" using len m by simp
  have rest: "slice_from f (m + 2) = []" using len m by (simp add: slice_from_def)
  have front: "act_on_front f m now n s =
           (case readAndActOnMessage m (f ! m) f now s of
              Inl thrown \<Rightarrow> Inl thrown
            | Inr (somethingChanged, s1) \<Rightarrow>
                Inr (n + 1,
                     if somethingChanged
                     then emit ChangesCallback (emit (Log Debug ''State change:'' []) s1)
                     else s1))"
    unfolding act_on_front_def Let_def whole using a pos cs by simp
  have "parse_loop f now n s =
          (if length f > 0 then
             (if length f < 2
              then Inr (n, emit (Log Error ''Very short message received (ignored)'' f) s)
              else if m > length f - 2
              then Inr (n, s\<lparr> pending := Some (f, now) \<rparr>)
              else (case act_on_front f m now n s of
                      Inl thrown \<Rightarrow> Inl thrown
                    | Inr done \<Rightarrow> parse_loop (slice_from f (m + 2)) now (fst done) (snd done)))
           else Inr (n, s))"
    unfolding m_def by (rule parse_loop.simps)
  then have loop: "parse_loop f now n s =
          (case act_on_front f m now n s of
             Inl thrown \<Rightarrow> Inl thrown
           | Inr done \<Rightarrow> parse_loop [] now (fst done) (snd done))"
    unfolding rest using len m by auto
  show ?thesis
    unfolding loop front
    by (simp add: m parse_loop_Nil split: sum.splits prod.splits)
qed

text \<open>
  C3, amended. Take a well-formed frame cut at a position \<open>k\<close> with
  \<open>2 \<le> k < length\<close>, and a framer that holds no earlier fragment. The first
  chunk is buffered and the call returns with no message processed. If the
  second chunk arrives less than a second (1000 ms) after the first, the outcome
  of the second call (the count, the state, or the error if the interpreter
  throws) is exactly that of the single call on the whole frame, which hands the
  frame to \<^verbatim>\<open>readAndActOnMessage\<close> once. If it arrives a second or more after
  the first, the fragment is dropped with the warning "Discarding old,
  incomplete message" and contributes nothing else: the outcome is that of the
  second chunk arriving alone after the warning.
\<close>

theorem split_frame_in_two_chunks:
  assumes wf: "wellformed f" and k: "2 \<le> k" "k < length f" and fresh: "pending s = None"
  shows "value_of (readAndActOnSocketContents (take k f) t1 s) = Some 0
       \<and> (\<bar>t1 - t2\<bar> < 1000 \<longrightarrow>
            readAndActOnSocketContents (drop k f) t2 (final (readAndActOnSocketContents (take k f) t1 s))
              = readAndActOnSocketContents f t2 s)
       \<and> (\<bar>t1 - t2\<bar> \<ge> 1000 \<longrightarrow>
            readAndActOnSocketContents (drop k f) t2 (final (readAndActOnSocketContents (take k f) t1 s))
              = readAndActOnSocketContents (drop k f) t2
                  (emit (Log Warn ''Discarding old, incomplete message'' (take k f)) s))
       \<and> readAndActOnSocketContents f t2 s =
           (case readAndActOnMessage (length f - 2) (f ! (length f - 2)) f t2 s of
              Inl thrown \<Rightarrow> Inl thrown
            | Inr (somethingChanged, s1) \<Rightarrow>
                Inr (1, if somethingChanged
                        then emit ChangesCallback (emit (Log Debug ''State change:'' []) s1)
                        else s1))"
proof -
  from wf have m: "unat (f ! 1) = length f - 2" by (simp add: wellformed_def)
  have c1: "2 \<le> length (take k f)" "length (take k f) - 2 < unat (take k f ! 1)"
    using k m by simp_all
  have first: "readAndActOnSocketContents (take k f) t1 s = Inr (0, s\<lparr> pending := Some (take k f, t1) \<rparr>)"
    using fresh parse_loop_incomplete [OF c1] by (simp add: readAndActOnSocketContents_def)
  have whole: "readAndActOnSocketContents f t2 s = parse_loop f t2 0 s"
    using fresh by (simp add: readAndActOnSocketContents_def)
  have warned: "pending (emit (Log Warn ''Discarding old, incomplete message'' (take k f)) s) = None"
    using fresh by (simp add: emit_def)
  have merged: "\<bar>t1 - t2\<bar> < 1000 \<Longrightarrow>
      readAndActOnSocketContents (drop k f) t2 (s\<lparr> pending := Some (take k f, t1) \<rparr>) = parse_loop f t2 0 s"
    using fresh by (simp add: readAndActOnSocketContents_def Let_def concat_bytes_def pending_None_eq)
  have dropped: "\<bar>t1 - t2\<bar> \<ge> 1000 \<Longrightarrow>
      readAndActOnSocketContents (drop k f) t2 (s\<lparr> pending := Some (take k f, t1) \<rparr>) =
      parse_loop (drop k f) t2 0 (emit (Log Warn ''Discarding old, incomplete message'' (take k f)) s)"
    using fresh by (simp add: readAndActOnSocketContents_def Let_def emit_def pending_None_eq)
  have alone: "readAndActOnSocketContents (drop k f) t2
                  (emit (Log Warn ''Discarding old, incomplete message'' (take k f)) s) =
      parse_loop (drop k f) t2 0 (emit (Log Warn ''Discarding old, incomplete message'' (take k f)) s)"
    using warned by (simp add: readAndActOnSocketContents_def)
  have fin: "final (readAndActOnSocketContents (take k f) t1 s) = s\<lparr> pending := Some (take k f, t1) \<rparr>"
    and val: "value_of (readAndActOnSocketContents (take k f) t1 s) = Some 0"
    by (simp_all add: first final_def value_of_def)
  have decoded: "parse_loop f t2 0 s =
           (case readAndActOnMessage (length f - 2) (f ! (length f - 2)) f t2 s of
              Inl thrown \<Rightarrow> Inl thrown
            | Inr (somethingChanged, s1) \<Rightarrow>
                Inr (1, if somethingChanged
                        then emit ChangesCallback (emit (Log Debug ''State change:'' []) s1)
                        else s1))"
    unfolding parse_loop_wellformed [OF wf, of t2 0 s]
    by (simp split: sum.splits prod.splits)
  show ?thesis
    unfolding fin whole alone
    using val merged dropped decoded by simp
qed

theorem split_frame_in_two_chunks_witness:
  "wellformed [0x7e,0x26,0xff,0xaf,0xc4,0x1f,0x15,0x1b,0x1a,0x15,0x16,0xa6,0xec,0x16,0x10,0x73,
      0x10,0x2d,0x0c,0x47,0x0b,0x68,0x08,0x0a,0x1d,0x05,0x01,0x22,0x06,0xb0,0x00,0x03,
      0x68,0x67,0x3c,0x3f,0x3e,0x39,0x93,0x7e]
   \<and> (2 :: nat) \<le> 20 \<and> 20 < length ([0x7e,0x26,0xff,0xaf,0xc4,0x1f,0x15,0x1b,0x1a,0x15,0x16,0xa6,0xec,0x16,0x10,0x73,
      0x10,0x2d,0x0c,0x47,0x0b,0x68,0x08,0x0a,0x1d,0x05,0x01,0x22,0x06,0xb0,0x00,0x03,
      0x68,0x67,0x3c,0x3f,0x3e,0x39,0x93,0x7e] :: bytes)
   \<and> pending (new_SpaClient ''spa'' 0) = None
   \<and> readAndActOnSocketContents (drop 20 [0x7e,0x26,0xff,0xaf,0xc4,0x1f,0x15,0x1b,0x1a,0x15,0x16,0xa6,0xec,0x16,0x10,0x73,
      0x10,0x2d,0x0c,0x47,0x0b,0x68,0x08,0x0a,0x1d,0x05,0x01,0x22,0x06,0xb0,0x00,0x03,
      0x68,0x67,0x3c,0x3f,0x3e,0x39,0x93,0x7e]) 1500
         (final (readAndActOnSocketContents (take 20 [0x7e,0x26,0xff,0xaf,0xc4,0x1f,0x15,0x1b,0x1a,0x15,0x16,0xa6,0xec,0x16,0x10,0x73,
      0x10,0x2d,0x0c,0x47,0x0b,0x68,0x08,0x0a,0x1d,0x05,0x01,0x22,0x06,0xb0,0x00,0x03,
      0x68,0x67,0x3c,0x3f,0x3e,0x39,0x93,0x7e]) 1000 (new_SpaClient ''spa'' 0)))
       = readAndActOnSocketContents [0x7e,0x26,0xff,0xaf,0xc4,0x1f,0x15,0x1b,0x1a,0x15,0x16,0xa6,0xec,0x16,0x10,0x73,
      0x10,0x2d,0x0c,0x47,0x0b,0x68,0x08,0x0a,0x1d,0x05,0x01,0x22,0x06,0xb0,0x00,0x03,
      0x68,0x67,0x3c,0x3f,0x3e,0x39,0x93,0x7e] 1500 (new_SpaClient ''spa'' 0)
   \<and> value_of (readAndActOnSocketContents [0x7e,0x26,0xff,0xaf,0xc4,0x1f,0x15,0x1b,0x1a,0x15,0x16,0xa6,0xec,0x16,0x10,0x73,
      0x10,0x2d,0x0c,0x47,0x0b,0x68,0x08,0x0a,0x1d,0x05,0x01,0x22,0x06,0xb0,0x00,0x03,
      0x68,0x67,0x3c,0x3f,0x3e,0x39,0x93,0x7e] 1500 (new_SpaClient ''spa'' 0)) = Some 1
   \<and> readAndActOnSocketContents (drop 20 [0x7e,0x26,0xff,0xaf,0xc4,0x1f,0x15,0x1b,0x1a,0x15,0x16,0xa6,0xec,0x16,0x10,0x73,
      0x10,0x2d,0x0c,0x47,0x0b,0x68,0x08,0x0a,0x1d,0x05,0x01,0x22,0x06,0xb0,0x00,0x03,
      0x68,0x67,0x3c,0x3f,0x3e,0x39,0x93,0x7e]) 2000
         (final (readAndActOnSocketContents (take 20 [0x7e,0x26,0xff,0xaf,0xc4,0x1f,0x15,0x1b,0x1a,0x15,0x16,0xa6,0xec,0x16,0x10,0x73,
      0x10,0x2d,0x0c,0x47,0x0b,0x68,0x08,0x0a,0x1d,0x05,0x01,0x22,0x06,0xb0,0x00,0x03,
      0x68,0x67,0x3c,0x3f,0x3e,0x39,0x93,0x7e]) 1000 (new_SpaClient ''spa'' 0)))
       = readAndActOnSocketContents (drop 20 [0x7e,0x26,0xff,0xaf,0xc4,0x1f,0x15,0x1b,0x1a,0x15,0x16,0xa6,0xec,0x16,0x10,0x73,
      0x10,0x2d,0x0c,0x47,0x0b,0x68,0x08,0x0a,0x1d,0x05,0x01,0x22,0x06,0xb0,0x00,0x03,
      0x68,0x67,0x3c,0x3f,0x3e,0x39,0x93,0x7e]) 2000
           (emit (Log Warn ''Discarding old, incomplete message'' (take 20 [0x7e,0x26,0xff,0xaf,0xc4,0x1f,0x15,0x1b,0x1a,0x15,0x16,0xa6,0xec,0x16,0x10,0x73,
      0x10,0x2d,0x0c,0x47,0x0b,0x68,0x08,0x0a,0x1d,0x05,0x01,0x22,0x06,0xb0,0x00,0x03,
      0x68,0x67,0x3c,0x3f,0x3e,0x39,0x93,0x7e]))
              (new_SpaClient ''spa'' 0))"
proof -
  let ?f = "[0x7e,0x26,0xff,0xaf,0xc4,0x1f,0x15,0x1b,0x1a,0x15,0x16,0xa6,0xec,0x16,0x10,0x73,
      0x10,0x2d,0x0c,0x47,0x0b,0x68,0x08,0x0a,0x1d,0x05,0x01,0x22,0x06,0xb0,0x00,0x03,
      0x68,0x67,0x3c,0x3f,0x3e,0x39,0x93,0x7e] :: bytes"
  have h1: "wellformed ?f" by code_simp
  have h2: "(2 :: nat) \<le> 20" by simp
  have h3: "20 < length ?f" by simp
  have h4: "pending (new_SpaClient ''spa'' 0) = None"
    by (simp add: new_SpaClient_def get_socket_def initial_fields_def emit_def)
  have near: "\<bar>1000 - 1500 :: int\<bar> < 1000" and far: "\<bar>1000 - 2000 :: int\<bar> \<ge> 1000" by simp_all
  from split_frame_in_two_chunks [OF h1 h2 h3 h4, of 1000 1500] near
  have a: "readAndActOnSocketContents (drop 20 ?f) 1500
         (final (readAndActOnSocketContents (take 20 ?f) 1000 (new_SpaClient ''spa'' 0)))
       = readAndActOnSocketContents ?f 1500 (new_SpaClient ''spa'' 0)"
    by presburger
  have one: "value_of (readAndActOnSocketContents ?f 1500 (new_SpaClient ''spa'' 0)) = Some 1"
    by code_simp
  from split_frame_in_two_chunks [OF h1 h2 h3 h4, of 1000 2000] far
  have b: "readAndActOnSocketContents (drop 20 ?f) 2000
         (final (readAndActOnSocketContents (take 20 ?f) 1000 (new_SpaClient ''spa'' 0)))
       = readAndActOnSocketContents (drop 20 ?f) 2000
           (emit (Log Warn ''Discarding old, incomplete message'' (take 20 ?f))
              (new_SpaClient ''spa'' 0))"
    by presburger
  show ?thesis using h1 h2 h3 h4 a one b by (intro conjI)
qed

text \<open>
  C3, as the claim states it (a split at any position), fails at position 1:
  a first chunk of one byte is not buffered but "ignored" as a very short
  message, and the rest of the frame no longer parses. The frame is the status
  packet quoted in the comment of \<^verbatim>\<open>decrypt\<close>: fed whole it is processed, fed
  as its first byte and then the rest, half a second apart, it is not.
\<close>

theorem split_after_first_byte_counterexample:
  "wellformed [0x7e,0x26,0xff,0xaf,0xc4,0x1f,0x15,0x1b,0x1a,0x15,0x16,0xa6,0xec,0x16,0x10,0x73,
      0x10,0x2d,0x0c,0x47,0x0b,0x68,0x08,0x0a,0x1d,0x05,0x01,0x22,0x06,0xb0,0x00,0x03,
      0x68,0x67,0x3c,0x3f,0x3e,0x39,0x93,0x7e]
   \<and> value_of (readAndActOnSocketContents (drop 1 [0x7e,0x26,0xff,0xaf,0xc4,0x1f,0x15,0x1b,0x1a,0x15,0x16,0xa6,0xec,0x16,0x10,0x73,
      0x10,0x2d,0x0c,0x47,0x0b,0x68,0x08,0x0a,0x1d,0x05,0x01,0x22,0x06,0xb0,0x00,0x03,
      0x68,0x67,0x3c,0x3f,0x3e,0x39,0x93,0x7e]) 1500
         (final (readAndActOnSocketContents (take 1 [0x7e,0x26,0xff,0xaf,0xc4,0x1f,0x15,0x1b,0x1a,0x15,0x16,0xa6,0xec,0x16,0x10,0x73,
      0x10,0x2d,0x0c,0x47,0x0b,0x68,0x08,0x0a,0x1d,0x05,0x01,0x22,0x06,0xb0,0x00,0x03,
      0x68,0x67,0x3c,0x3f,0x3e,0x39,0x93,0x7e]) 1000 (new_SpaClient ''spa'' 0)))) = Some 0
   \<and> value_of (readAndActOnSocketContents [0x7e,0x26,0xff,0xaf,0xc4,0x1f,0x15,0x1b,0x1a,0x15,0x16,0xa6,0xec,0x16,0x10,0x73,
      0x10,0x2d,0x0c,0x47,0x0b,0x68,0x08,0x0a,0x1d,0x05,0x01,0x22,0x06,0xb0,0x00,0x03,
      0x68,0x67,0x3c,0x3f,0x3e,0x39,0x93,0x7e] 1500 (new_SpaClient ''spa'' 0)) = Some 1"
  by code_simp

section \<open>Properties of the cipher\<close>

lemma mod_js_64: "mod_js n 64 = n mod 64"
proof (cases "0 \<le> n")
  case True
  then have "js_rem n 64 = n mod 64" by (simp add: js_rem_def sgn_if)
  moreover have "0 \<le> n mod 64" by simp
  then have "js_rem (n mod 64 + 64) 64 = n mod 64" by (simp add: js_rem_def sgn_if)
  ultimately show ?thesis by (simp add: mod_js_def)
next
  case False
  define r where "r = (- n) mod 64"
  have r: "0 \<le> r" "r < 64" by (simp_all add: r_def)
  from False have a: "js_rem n 64 = - r" by (simp add: js_rem_def sgn_if r_def)
  have "js_rem (- r + 64) 64 = (- r + 64) mod 64"
    using r by (simp add: js_rem_def sgn_if)
  also have "\<dots> = (- r) mod 64" by simp
  also have "\<dots> = (- (- n)) mod 64" unfolding r_def by (rule mod_minus_eq)
  finally show ?thesis by (simp add: mod_js_def a)
qed

lemma crc_bytes_cong:
  "(\<And>k. cur \<le> k \<Longrightarrow> int k < len \<Longrightarrow> at d1 k = at d2 k) \<Longrightarrow>
   crc_bytes d1 len cur crc = crc_bytes d2 len cur crc"
proof (induction d1 len cur crc rule: crc_bytes.induct)
  case (1 data len cur crc)
  show ?case
  proof (cases "int cur < len")
    case True
    have here: "at data cur = at d2 cur" using True 1(2) by simp
    have "crc_bytes data len cur crc =
            crc_bytes data len (cur + 1) (crc_data_bits (bits (at data cur)) 0 crc)"
      using True by (subst crc_bytes.simps) simp
    also have "\<dots> = crc_bytes d2 len (cur + 1) (crc_data_bits (bits (at data cur)) 0 crc)"
      using True 1(2) by (intro 1(1)) simp_all
    also have "\<dots> = crc_bytes d2 len cur crc"
      using True by (subst (2) crc_bytes.simps) (simp add: here)
    finally show ?thesis .
  next
    case False
    then show ?thesis by (subst crc_bytes.simps, subst (2) crc_bytes.simps) simp
  qed
qed

lemma compute_checksum_encrypted_cong:
  "(\<And>k. int k < len \<Longrightarrow> at d1 k = at d2 k) \<Longrightarrow>
   compute_checksum_encrypted d1 len = compute_checksum_encrypted d2 len"
  using crc_bytes_cong [of 0 len d1 d2 "0xb5"] by (simp add: compute_checksum_encrypted_def)

lemma decrypt_loop_length [simp]: "length (decrypt_loop i pl k1 k2 p) = length p"
proof (induction i pl k1 k2 p rule: decrypt_loop.induct)
  case (1 i packet_length key1 key2 packet)
  show ?case
  proof (cases "i < packet_length")
    case True
    then show ?thesis using 1 by (subst decrypt_loop.simps) (simp add: Let_def)
  next
    case False
    then show ?thesis by (subst decrypt_loop.simps) simp
  qed
qed

lemma decrypt_loop_nth:
  "j < length p \<Longrightarrow>
   decrypt_loop i pl k1 k2 p ! j =
     (if i \<le> j \<and> j < pl then p ! j XOR k1 XOR word_of_int ((k2 - int (j - i) - 1) mod 64)
      else p ! j)"
proof (induction i pl k1 k2 p rule: decrypt_loop.induct)
  case (1 i packet_length key1 key2 packet)
  show ?case
  proof (cases "i < packet_length")
    case False
    then show ?thesis by (subst decrypt_loop.simps) auto
  next
    case True
    let ?k = "(key2 - 1) mod 64"
    let ?p = "packet[i := bits (at packet i) XOR key1 XOR word_of_int ?k]"
    have step: "decrypt_loop i packet_length key1 key2 packet =
                  decrypt_loop (i + 1) packet_length key1 ?k ?p"
      using True by (subst decrypt_loop.simps) (simp add: Let_def mod_js_64)
    have jl: "j < length ?p" using 1(2) by simp
    have ih: "decrypt_loop (i + 1) packet_length key1 ?k ?p ! j =
                (if i + 1 \<le> j \<and> j < packet_length
                 then ?p ! j XOR key1 XOR word_of_int ((?k - int (j - (i + 1)) - 1) mod 64)
                 else ?p ! j)"
      by (rule 1(1) [OF True mod_js_64 [symmetric] jl])
    show ?thesis
    proof (cases "j = i")
      case True
      then show ?thesis
        unfolding step ih using \<open>i < packet_length\<close> 1(2) by (simp add: at_def bits_def)
    next
      case False
      have key: "i < j \<Longrightarrow> (?k - int (j - (i + 1)) - 1) mod 64 = (key2 - int (j - i) - 1) mod 64"
      proof -
        assume "i < j"
        then have e: "int (j - i) = int (j - (i + 1)) + 1" by simp
        have "(?k - int (j - (i + 1)) - 1) mod 64 = (?k - (int (j - (i + 1)) + 1)) mod 64"
          by (simp add: algebra_simps)
        also have "\<dots> = ((key2 - 1) - (int (j - (i + 1)) + 1)) mod 64"
          by (rule mod_diff_left_eq)
        also have "\<dots> = (key2 - int (j - i) - 1) mod 64"
          unfolding e by (simp add: algebra_simps)
        finally show ?thesis .
      qed
      show ?thesis
        unfolding step ih using False key by auto
    qed
  qed
qed

lemma decrypt_length [simp]: "length (decrypt p) = length p"
  by (simp add: decrypt_def Let_def split: option.splits)

lemma decrypt_nth:
  assumes len: "7 \<le> length p" and key: "decrypt_key1 (p ! 4) (p ! 5) = Some k1"
    and pl: "unat (p ! 1) = length p - 2"
    and j: "j < length p" "j \<noteq> length p - 2"
  shows "decrypt p ! j =
           (if j = 5 then 0
            else if 6 \<le> j \<and> j < length p - 2 then p ! j XOR k1 XOR key2_at (length p) j
            else p ! j)"
proof -
  let ?q = "decrypt_loop 6 (length p - 2) k1 (int (length p - 2) - HEADER_LENGTH - 2) p"
  have d: "decrypt p = (?q[5 := 0])[length p - 2 :=
             compute_checksum_encrypted (slice_from (?q[5 := 0]) 1) (int (length p - 2) - 1)]"
    using len key pl by (simp add: decrypt_def Let_def)
  have "decrypt p ! j = (?q[5 := 0]) ! j"
    unfolding d using j by simp
  also have "\<dots> = (if j = 5 then 0 else ?q ! j)"
    using j len by (simp add: nth_list_update)
  also have "?q ! j = (if 6 \<le> j \<and> j < length p - 2 then p ! j XOR k1 XOR key2_at (length p) j else p ! j)"
    using j by (simp add: decrypt_loop_nth key2_at_def)
  finally show ?thesis by simp
qed

lemma decrypt_checksum:
  assumes len: "7 \<le> length p" and key: "decrypt_key1 (p ! 4) (p ! 5) = Some k1"
    and pl: "unat (p ! 1) = length p - 2"
  shows "decrypt p ! (length p - 2) =
           compute_checksum_encrypted (slice_from (decrypt p) 1) (int (length p) - 3)"
proof -
  define q where
    "q = (decrypt_loop 6 (length p - 2) k1 (int (length p - 2) - HEADER_LENGTH - 2) p)[5 := 0]"
  define c where "c = compute_checksum_encrypted (slice_from q 1) (int (length p) - 3)"
  have n: "int (length p - 2) - 1 = int (length p) - 3" using len by simp
  have lq: "length q = length p" by (simp add: q_def)
  have d: "decrypt p = q[length p - 2 := c]"
    using len key pl unfolding decrypt_def Let_def q_def c_def n [symmetric] by simp
  have "decrypt p ! (length p - 2) = c"
    unfolding d using len lq by simp
  also have "c = compute_checksum_encrypted (slice_from q 1) (int (length p) - 3)"
    by (simp add: c_def)
  also have "\<dots> = compute_checksum_encrypted (slice_from (q[length p - 2 := c]) 1) (int (length p) - 3)"
  proof (rule compute_checksum_encrypted_cong)
    fix k assume "int k < int (length p) - 3"
    then have "k + 1 < length p - 2" by simp
    then show "at (slice_from q 1) k = at (slice_from (q[length p - 2 := c]) 1) k"
      by (simp add: at_def slice_from_def)
  qed
  finally show ?thesis unfolding d .
qed

lemma decrypt_key1_cases:
  "t = 0xc4 \<or> t = 0xca \<or> t = 0xcc \<Longrightarrow> \<exists>c. \<forall>kb. decrypt_key1 t kb = Some (kb XOR c)"
  by (auto simp: decrypt_key1_def)

text \<open>
  C1, amended. Take a well-formed encrypted frame: type byte 0xc4, 0xca or 0xcc
  at offset 4, at least 7 bytes, and a length byte that is the number of bytes
  less 2. Applying the transform twice gives back each payload byte (offsets 6
  to length - 3) XORed with the key byte the frame had at offset 5. So if the
  key byte is 0, as in every packet that \<^verbatim>\<open>sendMessageToSpa\<close> builds, two passes
  give back every byte of the frame except the checksum byte, which is
  recomputed. After either pass, whatever the key byte, the checksum byte at
  position length - 2 is the encrypted checksum of the transformed frame.
\<close>

theorem decrypt_twice_restores:
  assumes len: "7 \<le> length p"
    and type: "p ! 4 = 0xc4 \<or> p ! 4 = 0xca \<or> p ! 4 = 0xcc"
    and pl: "unat (p ! 1) = length p - 2"
  shows "length (decrypt (decrypt p)) = length p
       \<and> (\<forall>j. 6 \<le> j \<and> j < length p - 2 \<longrightarrow> decrypt (decrypt p) ! j = p ! j XOR p ! 5)
       \<and> (p ! 5 = 0 \<longrightarrow>
            (\<forall>j < length p. j \<noteq> length p - 2 \<longrightarrow> decrypt (decrypt p) ! j = p ! j))
       \<and> decrypt p ! (length p - 2) =
           compute_checksum_encrypted (slice_from (decrypt p) 1) (int (length p) - 3)
       \<and> decrypt (decrypt p) ! (length p - 2) =
           compute_checksum_encrypted (slice_from (decrypt (decrypt p)) 1) (int (length p) - 3)"
proof -
  let ?q = "decrypt p"
  from decrypt_key1_cases [OF type] obtain c where c: "\<And>kb. decrypt_key1 (p ! 4) kb = Some (kb XOR c)"
    by blast
  have k1: "decrypt_key1 (p ! 4) (p ! 5) = Some (p ! 5 XOR c)" by (rule c)
  note q_nth = decrypt_nth [OF len k1 pl]
  have q4: "?q ! 4 = p ! 4" and q1: "?q ! 1 = p ! 1"
    using len q_nth [of 4] q_nth [of 1] by simp_all
  have qlen: "7 \<le> length ?q" using len by simp
  have qpl: "unat (?q ! 1) = length ?q - 2" using pl q1 by simp
  have qk: "decrypt_key1 (?q ! 4) (?q ! 5) = Some (?q ! 5 XOR c)" using c q4 by simp
  note qq_nth = decrypt_nth [OF qlen qk qpl]
  have payload: "decrypt ?q ! j = p ! j XOR p ! 5" if j: "6 \<le> j \<and> j < length p - 2" for j
  proof -
    from j have jl: "j < length p" "j \<noteq> length p - 2" "j \<noteq> 5" by auto
    from j have q5: "?q ! 5 = 0" using q_nth [of 5] len by simp
    have "decrypt ?q ! j = ?q ! j XOR (?q ! 5 XOR c) XOR key2_at (length p) j"
      using qq_nth [of j] j jl by simp
    also have "?q ! j = p ! j XOR (p ! 5 XOR c) XOR key2_at (length p) j"
      using q_nth [of j] j jl by simp
    finally show ?thesis by (simp add: q5 xor.assoc xor.left_commute)
  qed
  have restore: "decrypt ?q ! j = p ! j"
    if zero: "p ! 5 = 0" and j: "j < length p" "j \<noteq> length p - 2" for j
  proof (cases "6 \<le> j \<and> j < length p - 2")
    case True
    then show ?thesis using payload [of j] zero by simp
  next
    case False
    then have "decrypt ?q ! j = (if j = 5 then 0 else ?q ! j)"
      using qq_nth [of j] j by auto
    also have "\<dots> = (if j = 5 then 0 else p ! j)"
      using q_nth [of j] j False by auto
    finally show ?thesis using zero by simp
  qed
  show ?thesis
    using payload restore decrypt_checksum [OF len k1 pl] decrypt_checksum [OF qlen qk qpl]
    by simp
qed

theorem decrypt_twice_restores_witness:
  "7 \<le> length ([0x7e,0x26,0xff,0xaf,0xc4,0x00,0x0d,0x00,0x00,0x08,0x0a,0xb9,0xf2,0x07,0x00,0x60,
      0x02,0x38,0x18,0x50,0x1d,0x61,0x00,0x01,0x17,0x08,0x0d,0x2d,0x08,0xb1,0x00,0x00,
      0x6a,0x62,0x38,0x38,0x38,0x00,0xf9,0x7e] :: bytes)
   \<and> ([0x7e,0x26,0xff,0xaf,0xc4,0x00,0x0d,0x00,0x00,0x08,0x0a,0xb9,0xf2,0x07,0x00,0x60,
      0x02,0x38,0x18,0x50,0x1d,0x61,0x00,0x01,0x17,0x08,0x0d,0x2d,0x08,0xb1,0x00,0x00,
      0x6a,0x62,0x38,0x38,0x38,0x00,0xf9,0x7e] ! 4 = (0xc4 :: byte) \<or> [0x7e,0x26,0xff,0xaf,0xc4,0x00,0x0d,0x00,0x00,0x08,0x0a,0xb9,0xf2,0x07,0x00,0x60,
      0x02,0x38,0x18,0x50,0x1d,0x61,0x00,0x01,0x17,0x08,0x0d,0x2d,0x08,0xb1,0x00,0x00,
      0x6a,0x62,0x38,0x38,0x38,0x00,0xf9,0x7e] ! 4 = (0xca :: byte) \<or> [0x7e,0x26,0xff,0xaf,0xc4,0x00,0x0d,0x00,0x00,0x08,0x0a,0xb9,0xf2,0x07,0x00,0x60,
      0x02,0x38,0x18,0x50,0x1d,0x61,0x00,0x01,0x17,0x08,0x0d,0x2d,0x08,0xb1,0x00,0x00,
      0x6a,0x62,0x38,0x38,0x38,0x00,0xf9,0x7e] ! 4 = (0xcc :: byte))
   \<and> unat ([0x7e,0x26,0xff,0xaf,0xc4,0x00,0x0d,0x00,0x00,0x08,0x0a,0xb9,0xf2,0x07,0x00,0x60,
      0x02,0x38,0x18,0x50,0x1d,0x61,0x00,0x01,0x17,0x08,0x0d,0x2d,0x08,0xb1,0x00,0x00,
      0x6a,0x62,0x38,0x38,0x38,0x00,0xf9,0x7e] ! 1 :: byte) = length ([0x7e,0x26,0xff,0xaf,0xc4,0x00,0x0d,0x00,0x00,0x08,0x0a,0xb9,0xf2,0x07,0x00,0x60,
      0x02,0x38,0x18,0x50,0x1d,0x61,0x00,0x01,0x17,0x08,0x0d,0x2d,0x08,0xb1,0x00,0x00,
      0x6a,0x62,0x38,0x38,0x38,0x00,0xf9,0x7e] :: bytes) - 2
   \<and> [0x7e,0x26,0xff,0xaf,0xc4,0x00,0x0d,0x00,0x00,0x08,0x0a,0xb9,0xf2,0x07,0x00,0x60,
      0x02,0x38,0x18,0x50,0x1d,0x61,0x00,0x01,0x17,0x08,0x0d,0x2d,0x08,0xb1,0x00,0x00,
      0x6a,0x62,0x38,0x38,0x38,0x00,0xf9,0x7e] ! 5 = (0 :: byte)
   \<and> decrypt [0x7e,0x26,0xff,0xaf,0xc4,0x00,0x0d,0x00,0x00,0x08,0x0a,0xb9,0xf2,0x07,0x00,0x60,
      0x02,0x38,0x18,0x50,0x1d,0x61,0x00,0x01,0x17,0x08,0x0d,0x2d,0x08,0xb1,0x00,0x00,
      0x6a,0x62,0x38,0x38,0x38,0x00,0xf9,0x7e] ! 6 = 0x0a
   \<and> decrypt (decrypt [0x7e,0x26,0xff,0xaf,0xc4,0x00,0x0d,0x00,0x00,0x08,0x0a,0xb9,0xf2,0x07,0x00,0x60,
      0x02,0x38,0x18,0x50,0x1d,0x61,0x00,0x01,0x17,0x08,0x0d,0x2d,0x08,0xb1,0x00,0x00,
      0x6a,0x62,0x38,0x38,0x38,0x00,0xf9,0x7e]) ! 6 = 0x0d
   \<and> decrypt [0x7e,0x26,0xff,0xaf,0xc4,0x00,0x0d,0x00,0x00,0x08,0x0a,0xb9,0xf2,0x07,0x00,0x60,
      0x02,0x38,0x18,0x50,0x1d,0x61,0x00,0x01,0x17,0x08,0x0d,0x2d,0x08,0xb1,0x00,0x00,
      0x6a,0x62,0x38,0x38,0x38,0x00,0xf9,0x7e] ! 38 = compute_checksum_encrypted (slice_from (decrypt [0x7e,0x26,0xff,0xaf,0xc4,0x00,0x0d,0x00,0x00,0x08,0x0a,0xb9,0xf2,0x07,0x00,0x60,
      0x02,0x38,0x18,0x50,0x1d,0x61,0x00,0x01,0x17,0x08,0x0d,0x2d,0x08,0xb1,0x00,0x00,
      0x6a,0x62,0x38,0x38,0x38,0x00,0xf9,0x7e]) 1) 37"
proof -
  let ?p = "[0x7e,0x26,0xff,0xaf,0xc4,0x00,0x0d,0x00,0x00,0x08,0x0a,0xb9,0xf2,0x07,0x00,0x60,
      0x02,0x38,0x18,0x50,0x1d,0x61,0x00,0x01,0x17,0x08,0x0d,0x2d,0x08,0xb1,0x00,0x00,
      0x6a,0x62,0x38,0x38,0x38,0x00,0xf9,0x7e] :: bytes"
  have h1: "7 \<le> length ?p" by simp
  have h2: "?p ! 4 = 0xc4 \<or> ?p ! 4 = 0xca \<or> ?p ! 4 = 0xcc" by simp
  have h3: "unat (?p ! 1) = length ?p - 2" by simp
  have h4: "?p ! 5 = 0" by simp
  have once: "decrypt ?p ! 6 = 0x0a" by code_simp
  have l: "length ?p = 40" by simp
  note t = decrypt_twice_restores [OF h1 h2 h3, unfolded l]
  from t h4 have "\<forall>j < 40. j \<noteq> 40 - 2 \<longrightarrow> decrypt (decrypt ?p) ! j = ?p ! j"
    by blast
  then have twice: "decrypt (decrypt ?p) ! 6 = 0x0d" by simp
  from t have "decrypt ?p ! (40 - 2) =
      compute_checksum_encrypted (slice_from (decrypt ?p) 1) (int 40 - 3)"
    by blast
  then have sum: "decrypt ?p ! 38 = compute_checksum_encrypted (slice_from (decrypt ?p) 1) 37"
    by simp
  show ?thesis using h1 h2 h3 h4 once twice sum by (intro conjI)
qed

text \<open>
  C1, as the claim states it (for every frame of one of the three types), fails
  when the key byte is not 0: the first pass sets the key byte to 0, so the
  second pass uses another first key. The frame is the encrypted status packet
  quoted in the comment of \<^verbatim>\<open>decrypt\<close>, with key byte 0x1f: it is well-formed, and
  after two passes its first payload byte is 0x0a, not 0x15.
\<close>

theorem decrypt_twice_key_byte_counterexample:
  "wellformed [0x7e,0x26,0xff,0xaf,0xc4,0x1f,0x15,0x1b,0x1a,0x15,0x16,0xa6,0xec,0x16,0x10,0x73,
      0x10,0x2d,0x0c,0x47,0x0b,0x68,0x08,0x0a,0x1d,0x05,0x01,0x22,0x06,0xb0,0x00,0x03,
      0x68,0x67,0x3c,0x3f,0x3e,0x39,0x93,0x7e]
   \<and> [0x7e,0x26,0xff,0xaf,0xc4,0x1f,0x15,0x1b,0x1a,0x15,0x16,0xa6,0xec,0x16,0x10,0x73,
      0x10,0x2d,0x0c,0x47,0x0b,0x68,0x08,0x0a,0x1d,0x05,0x01,0x22,0x06,0xb0,0x00,0x03,
      0x68,0x67,0x3c,0x3f,0x3e,0x39,0x93,0x7e] ! 4 = (0xc4 :: byte)
   \<and> [0x7e,0x26,0xff,0xaf,0xc4,0x1f,0x15,0x1b,0x1a,0x15,0x16,0xa6,0xec,0x16,0x10,0x73,
      0x10,0x2d,0x0c,0x47,0x0b,0x68,0x08,0x0a,0x1d,0x05,0x01,0x22,0x06,0xb0,0x00,0x03,
      0x68,0x67,0x3c,0x3f,0x3e,0x39,0x93,0x7e] ! 6 = (0x15 :: byte)
   \<and> decrypt (decrypt [0x7e,0x26,0xff,0xaf,0xc4,0x1f,0x15,0x1b,0x1a,0x15,0x16,0xa6,0xec,0x16,0x10,0x73,
      0x10,0x2d,0x0c,0x47,0x0b,0x68,0x08,0x0a,0x1d,0x05,0x01,0x22,0x06,0xb0,0x00,0x03,
      0x68,0x67,0x3c,0x3f,0x3e,0x39,0x93,0x7e]) ! 6 = 0x0a"
  by code_simp

end
